theory Spec2Isabelle
  imports Complex_Main "HOL-Library.Multiset"
begin

section \<open>Python string primitives used by the snapshot pipeline\<close>

text \<open>
  Strings are lists of 8-bit characters; a character stands for the code point of the same
  number (ASCII and Latin-1). The helpers below follow \<^verbatim>\<open>str.strip()\<close>,
  \<^verbatim>\<open>str.lower()\<close>, \<^verbatim>\<open>sub in s\<close>, \<^verbatim>\<open>str.startswith\<close>,
  \<^verbatim>\<open>str.replace\<close> and the ordering of \<^verbatim>\<open>str\<close> on that range.
\<close>

definition py_isspace :: "char \<Rightarrow> bool" where
  "py_isspace c = (let n = (of_char c :: nat) in
     (9 \<le> n \<and> n \<le> 13) \<or> (28 \<le> n \<and> n \<le> 32) \<or> n = 133 \<or> n = 160)"

definition strip :: "string \<Rightarrow> string" where
  "strip s = rev (dropWhile py_isspace (rev (dropWhile py_isspace s)))"

definition py_lower_char :: "char \<Rightarrow> char" where
  "py_lower_char c = (let n = (of_char c :: nat) in
     if (65 \<le> n \<and> n \<le> 90) \<or> (192 \<le> n \<and> n \<le> 222 \<and> n \<noteq> 215)
     then char_of (n + 32) else c)"

definition lower :: "string \<Rightarrow> string" where
  "lower s = map py_lower_char s"

definition startswith :: "string \<Rightarrow> string \<Rightarrow> bool" where
  "startswith s p = (take (length p) s = p)"

fun contains :: "string \<Rightarrow> string \<Rightarrow> bool" where
  "contains sub [] = (sub = [])"
| "contains sub (c # cs) = (startswith (c # cs) sub \<or> contains sub cs)"

section \<open>Deployment stages\<close>

datatype stage = S_DEV | S_QA | S_UAT | S_PROD

text \<open>
  \<^verbatim>\<open>_env_to_stage\<close> of snapshot.py. The argument is \<^verbatim>\<open>env.get("name")\<close>, which may be
  \<^verbatim>\<open>None\<close>; \<^verbatim>\<open>(env_name or "")\<close> turns that into the empty string.
\<close>

definition env_to_stage :: "string option \<Rightarrow> stage" where
  "env_to_stage env_name =
     (let n = lower (strip (case env_name of None \<Rightarrow> [] | Some s \<Rightarrow> s)) in
      if n = [] then S_DEV
      else if contains ''prod'' n then S_PROD
      else if contains ''uat'' n then S_UAT
      else if n = ''qa'' \<or> contains ''qa'' n \<or> n \<in> set [''green''] then S_QA
      else S_DEV)"

text \<open>
  The rule in the words of the specification: case-insensitive substring match in the order
  prod, uat, qa or green, else DEV.
\<close>

definition stage_by_substring :: "string \<Rightarrow> stage" where
  "stage_by_substring name =
     (let n = lower name in
      if contains ''prod'' n then S_PROD
      else if contains ''uat'' n then S_UAT
      else if contains ''qa'' n \<or> contains ''green'' n then S_QA
      else S_DEV)"

section \<open>Stage derivation\<close>

text \<open>
  C5 (as amended). The stage of an environment name is decided on the trimmed, lower-cased
  name: a name containing prod is PROD, else one containing uat is UAT, else one containing
  qa, or equal to green as a whole, is QA, and anything else (the empty name too) is DEV.
  In particular PRODUCTION is PROD, green is QA, integration-uat is UAT, and both the empty
  name and a missing name are DEV.
\<close>

theorem env_to_stage_rule:
  "env_to_stage (Some s) =
     (if contains ''prod'' (lower (strip s)) then S_PROD
      else if contains ''uat'' (lower (strip s)) then S_UAT
      else if contains ''qa'' (lower (strip s)) \<or> lower (strip s) = ''green'' then S_QA
      else S_DEV)
   \<and> env_to_stage (Some ''PRODUCTION'') = S_PROD
   \<and> env_to_stage (Some ''green'') = S_QA
   \<and> env_to_stage (Some ''integration-uat'') = S_UAT
   \<and> env_to_stage (Some []) = S_DEV
   \<and> env_to_stage None = S_DEV"
proof -
  have general: "env_to_stage (Some s) =
     (if contains ''prod'' (lower (strip s)) then S_PROD
      else if contains ''uat'' (lower (strip s)) then S_UAT
      else if contains ''qa'' (lower (strip s)) \<or> lower (strip s) = ''green'' then S_QA
      else S_DEV)"
    by (cases "lower (strip s) = []") (auto simp: env_to_stage_def Let_def startswith_def)
  have e1: "env_to_stage (Some ''PRODUCTION'') = S_PROD" by code_simp
  have e2: "env_to_stage (Some ''green'') = S_QA" by code_simp
  have e3: "env_to_stage (Some ''integration-uat'') = S_UAT" by code_simp
  have e4: "env_to_stage (Some []) = S_DEV" by code_simp
  have e5: "env_to_stage None = S_DEV" by code_simp
  from general e1 e2 e3 e4 e5 show ?thesis by blast
qed

theorem env_to_stage_rule_witness:
  "env_to_stage (Some '' QA-blue '') = S_QA"
proof -
  have "contains ''prod'' (lower (strip '' QA-blue '')) = False" by code_simp
  moreover have "contains ''uat'' (lower (strip '' QA-blue '')) = False" by code_simp
  moreover have "contains ''qa'' (lower (strip '' QA-blue '')) = True" by code_simp
  ultimately show ?thesis
    using env_to_stage_rule [of "'' QA-blue ''"] by simp
qed

text \<open>
  The rule as the specification words it treats green as a substring too; the program does
  not: a name that merely contains green, such as bluegreen, is a DEV lane.
\<close>

theorem env_to_stage_green_counterexample:
  "env_to_stage (Some ''bluegreen'') = S_DEV \<and> stage_by_substring ''bluegreen'' = S_QA"
  by code_simp

section \<open>JSON values and Python dictionaries\<close>

text \<open>
  Events, index documents and tickets are JSON objects held in Python dictionaries. A
  dictionary is an association list in insertion order; \<^verbatim>\<open>d.get(k)\<close> of a missing key is
  \<^verbatim>\<open>None\<close>, written \<open>JNull\<close>. \<open>truthy\<close> is Python's truth value of a JSON value.
\<close>

datatype json =
    JNull
  | JBool bool
  | JNum int
  | JStr string
  | JArr "json list"
  | JObj "(string \<times> json) list"

type_synonym pydict = "(string \<times> json) list"

fun truthy :: "json \<Rightarrow> bool" where
  "truthy JNull = False"
| "truthy (JBool b) = b"
| "truthy (JNum n) = (n \<noteq> 0)"
| "truthy (JStr s) = (s \<noteq> [])"
| "truthy (JArr xs) = (xs \<noteq> [])"
| "truthy (JObj kvs) = (kvs \<noteq> [])"

definition dict_get :: "pydict \<Rightarrow> string \<Rightarrow> json" where
  "dict_get d k = (case map_of d k of None \<Rightarrow> JNull | Some v \<Rightarrow> v)"

section \<open>The append-only events log\<close>

text \<open>
  The state of the release-history directory that the append path touches: the events log
  \<^verbatim>\<open>events.jsonl\<close> and its sibling \<^verbatim>\<open>events.jsonl.tmp\<close>, each absent or a list of lines.
  A line is kept as the dictionary that \<^verbatim>\<open>json.dumps\<close> wrote.
\<close>

record jsonl_fs =
  jsonl_path :: "pydict list option"
  jsonl_tmp :: "pydict list option"

text \<open>
  What can go wrong during one attempt of \<^verbatim>\<open>atomic_append_jsonl\<close>: nothing, or an
  \<^verbatim>\<open>OSError\<close> while the events are being appended to the temporary file, after the given
  number of them was written.
\<close>

datatype io_fault = NoFault | AppendFails nat

definition has_id :: "pydict \<Rightarrow> bool" where
  "has_id event = truthy (dict_get event ''id'')"

definition copy_existing :: "jsonl_fs \<Rightarrow> jsonl_fs" where
  "copy_existing fs =
     (case jsonl_path fs of None \<Rightarrow> fs | Some content \<Rightarrow> fs\<lparr>jsonl_tmp := Some content\<rparr>)"

definition append_to_tmp :: "pydict list \<Rightarrow> jsonl_fs \<Rightarrow> jsonl_fs" where
  "append_to_tmp events fs =
     fs\<lparr>jsonl_tmp := Some ((case jsonl_tmp fs of None \<Rightarrow> [] | Some t \<Rightarrow> t)
                             @ filter has_id events)\<rparr>"

definition replace_path :: "jsonl_fs \<Rightarrow> jsonl_fs" where
  "replace_path fs = fs\<lparr>jsonl_path := jsonl_tmp fs, jsonl_tmp := None\<rparr>"

text \<open>
  \<^verbatim>\<open>atomic_append_jsonl\<close> of file\_utils.py. The first argument counts the attempts that
  are left (\<^verbatim>\<open>max_retries\<close> at the start). The result pairs the new state with
  \<open>True\<close> when the call returns and \<open>False\<close> when it raises.
\<close>

fun atomic_append_attempts ::
  "nat \<Rightarrow> io_fault list \<Rightarrow> pydict list \<Rightarrow> jsonl_fs \<Rightarrow> jsonl_fs \<times> bool" where
  "atomic_append_attempts 0 faults events fs = (fs, True)"
| "atomic_append_attempts (Suc n) faults events fs =
     (case faults of
        AppendFails k # rest \<Rightarrow>
          (let fs' = append_to_tmp (take k (filter has_id events)) (copy_existing fs) in
           if 0 < n then atomic_append_attempts n rest events fs'
           else (fs'\<lparr>jsonl_tmp := None\<rparr>, False))
      | _ \<Rightarrow> (replace_path (append_to_tmp events (copy_existing fs)), True))"

definition atomic_append_jsonl :: "io_fault list \<Rightarrow> pydict list \<Rightarrow> jsonl_fs \<Rightarrow> jsonl_fs \<times> bool" where
  "atomic_append_jsonl faults events fs = atomic_append_attempts 5 faults events fs"

text \<open>\<^verbatim>\<open>_append_events_to_jsonl\<close> of snapshot.py, on a dictionary from project key to events.\<close>

definition append_events_to_jsonl ::
  "io_fault list \<Rightarrow> (string \<times> pydict list) list \<Rightarrow> jsonl_fs \<Rightarrow> jsonl_fs \<times> bool" where
  "append_events_to_jsonl faults events_by_project fs =
     (let all_events = filter has_id (concat (map snd events_by_project)) in
      if all_events \<noteq> [] then atomic_append_jsonl faults all_events fs else (fs, True))"

text \<open>The states of the log directory that the append path can reach from an empty one.\<close>

inductive reachable :: "jsonl_fs \<Rightarrow> bool" where
  reachable_init: "reachable \<lparr>jsonl_path = None, jsonl_tmp = None\<rparr>"
| reachable_append:
    "reachable fs \<Longrightarrow> reachable (fst (append_events_to_jsonl faults events_by_project fs))"

definition lines_of :: "pydict list option \<Rightarrow> pydict list" where
  "lines_of file = (case file of None \<Rightarrow> [] | Some ls \<Rightarrow> ls)"

definition ids_present :: "jsonl_fs \<Rightarrow> bool" where
  "ids_present fs = (list_all has_id (lines_of (jsonl_path fs)) \<and> list_all has_id (lines_of (jsonl_tmp fs)))"

lemma ids_present_copy_existing: "ids_present fs \<Longrightarrow> ids_present (copy_existing fs)"
  by (auto simp: ids_present_def copy_existing_def lines_of_def split: option.splits)

lemma ids_present_append_to_tmp: "ids_present fs \<Longrightarrow> ids_present (append_to_tmp events fs)"
  by (auto simp: ids_present_def append_to_tmp_def lines_of_def list_all_iff split: option.splits)

lemma ids_present_replace_path: "ids_present fs \<Longrightarrow> ids_present (replace_path fs)"
  by (auto simp: ids_present_def replace_path_def lines_of_def)

lemma ids_present_drop_tmp: "ids_present fs \<Longrightarrow> ids_present (fs\<lparr>jsonl_tmp := None\<rparr>)"
  by (auto simp: ids_present_def lines_of_def)

lemma ids_present_attempts:
  "ids_present fs \<Longrightarrow> ids_present (fst (atomic_append_attempts n faults events fs))"
proof (induction n faults events fs rule: atomic_append_attempts.induct)
  case (1 faults events fs)
  then show ?case by simp
next
  case (2 n faults events fs)
  show ?case
  proof (cases faults)
    case Nil
    with "2.prems" show ?thesis
      by (simp add: ids_present_copy_existing ids_present_append_to_tmp ids_present_replace_path)
  next
    case (Cons f rest)
    show ?thesis
    proof (cases f)
      case NoFault
      with Cons "2.prems" show ?thesis
        by (simp add: ids_present_copy_existing ids_present_append_to_tmp ids_present_replace_path)
    next
      case (AppendFails k)
      let ?fs' = "append_to_tmp (take k (filter has_id events)) (copy_existing fs)"
      have ok: "ids_present ?fs'"
        using "2.prems" by (simp add: ids_present_copy_existing ids_present_append_to_tmp)
      show ?thesis
      proof (cases "0 < n")
        case True
        with "2.IH" [OF Cons AppendFails refl True ok] Cons AppendFails show ?thesis
          by (simp add: Let_def)
      next
        case False
        with Cons AppendFails ok show ?thesis
          by (simp add: Let_def ids_present_drop_tmp)
      qed
    qed
  qed
qed

lemma ids_present_append_events:
  "ids_present fs \<Longrightarrow> ids_present (fst (append_events_to_jsonl faults ebp fs))"
  by (simp add: append_events_to_jsonl_def atomic_append_jsonl_def Let_def ids_present_attempts)

lemma reachable_ids_present: "reachable fs \<Longrightarrow> ids_present fs"
  by (induction rule: reachable.induct)
     (simp_all add: ids_present_def lines_of_def ids_present_append_events [unfolded ids_present_def lines_of_def])

text \<open>
  C10. Every record on the events log has a non-empty id. Both filters drop an event whose
  id is missing or empty: a successful append adds to the log exactly the given events that
  carry an id, in order, and in every state the append path reaches from an empty directory,
  each line of the log is an object whose id is a non-empty (truthy) value.
\<close>

theorem events_log_ids_nonempty:
  "(reachable fs \<longrightarrow> jsonl_path fs = Some ls \<longrightarrow> l \<in> set ls \<longrightarrow> truthy (dict_get l ''id''))
   \<and> (jsonl_tmp fs = None \<longrightarrow>
        jsonl_path (fst (atomic_append_jsonl [] events fs)) =
          Some (lines_of (jsonl_path fs) @ filter has_id events))
   \<and> (jsonl_tmp fs = None \<longrightarrow> filter has_id (concat (map snd ebp)) \<noteq> [] \<longrightarrow>
        jsonl_path (fst (append_events_to_jsonl [] ebp fs)) =
          Some (lines_of (jsonl_path fs) @ filter has_id (concat (map snd ebp))))"
proof -
  have a: "reachable fs \<longrightarrow> jsonl_path fs = Some ls \<longrightarrow> l \<in> set ls \<longrightarrow> truthy (dict_get l ''id'')"
  proof (intro impI)
    assume "reachable fs" and p: "jsonl_path fs = Some ls" and l: "l \<in> set ls"
    then have "ids_present fs" by (simp add: reachable_ids_present)
    with p l show "truthy (dict_get l ''id'')"
      by (auto simp: ids_present_def lines_of_def list_all_iff has_id_def)
  qed
  have b: "jsonl_tmp fs = None \<longrightarrow>
        jsonl_path (fst (atomic_append_jsonl [] events fs)) =
          Some (lines_of (jsonl_path fs) @ filter has_id events)"
    by (auto simp: atomic_append_jsonl_def eval_nat_numeral replace_path_def append_to_tmp_def
          copy_existing_def lines_of_def split: option.splits)
  have c: "jsonl_tmp fs = None \<longrightarrow> filter has_id (concat (map snd ebp)) \<noteq> [] \<longrightarrow>
        jsonl_path (fst (append_events_to_jsonl [] ebp fs)) =
          Some (lines_of (jsonl_path fs) @ filter has_id (concat (map snd ebp)))"
    by (auto simp: append_events_to_jsonl_def Let_def atomic_append_jsonl_def eval_nat_numeral
          replace_path_def append_to_tmp_def copy_existing_def lines_of_def split: option.splits)
  from a b c show ?thesis by blast
qed

theorem events_log_ids_nonempty_witness:
  "reachable (fst (append_events_to_jsonl []
       [(''P1'', [[(''id'', JStr ''abc:P1:qa:X:svc-v0.0.11''), (''kind'', JStr ''TAG_CHANGE'')],
                  [(''id'', JStr []), (''kind'', JStr ''TAG_CHANGE'')],
                  [(''kind'', JStr ''TAG_CHANGE'')]])]
       \<lparr>jsonl_path = None, jsonl_tmp = None\<rparr>))
   \<and> jsonl_path (fst (append_events_to_jsonl []
       [(''P1'', [[(''id'', JStr ''abc:P1:qa:X:svc-v0.0.11''), (''kind'', JStr ''TAG_CHANGE'')],
                  [(''id'', JStr []), (''kind'', JStr ''TAG_CHANGE'')],
                  [(''kind'', JStr ''TAG_CHANGE'')]])]
       \<lparr>jsonl_path = None, jsonl_tmp = None\<rparr>))
       = Some [[(''id'', JStr ''abc:P1:qa:X:svc-v0.0.11''), (''kind'', JStr ''TAG_CHANGE'')]]
   \<and> truthy (dict_get [(''id'', JStr ''abc:P1:qa:X:svc-v0.0.11''), (''kind'', JStr ''TAG_CHANGE'')] ''id'')"
proof -
  let ?ev = "[(''id'', JStr ''abc:P1:qa:X:svc-v0.0.11''), (''kind'', JStr ''TAG_CHANGE'')]"
  let ?fs = "fst (append_events_to_jsonl []
       [(''P1'', [?ev, [(''id'', JStr []), (''kind'', JStr ''TAG_CHANGE'')],
                  [(''kind'', JStr ''TAG_CHANGE'')]])]
       \<lparr>jsonl_path = None, jsonl_tmp = None\<rparr>)"
  have r: "reachable ?fs"
    by (rule reachable_append [OF reachable_init])
  have p: "jsonl_path ?fs = Some [?ev]"
    by (simp add: append_events_to_jsonl_def Let_def atomic_append_jsonl_def eval_nat_numeral
          replace_path_def append_to_tmp_def copy_existing_def has_id_def dict_get_def)
  have "truthy (dict_get ?ev ''id'')"
    using events_log_ids_nonempty [of ?fs "[?ev]" ?ev] r p by simp
  with r p show ?thesis by blast
qed

section \<open>Time-aware correlation of pull requests with branches\<close>

fun py_replace :: "string \<Rightarrow> string \<Rightarrow> string \<Rightarrow> string" where
  "py_replace old new [] = (if old = [] then new else [])"
| "py_replace old new (c # cs) =
     (if old = [] then new @ c # py_replace old new cs
      else if startswith (c # cs) old then new @ py_replace old new (drop (length old - 1) cs)
      else c # py_replace old new cs)"

definition or_empty :: "string option \<Rightarrow> string" where
  "or_empty v = (case v of None \<Rightarrow> [] | Some s \<Rightarrow> s)"

text \<open>
  A \<^verbatim>\<open>datetime\<close> is naive or aware; the number is its position on the time line in
  microseconds (of the wall clock when naive, of UTC when aware). Ordering a naive against an
  aware one raises \<^verbatim>\<open>TypeError\<close>.
\<close>

datatype pydatetime = Naive int | Aware int

datatype py_error = TypeError

fun dt_less :: "pydatetime \<Rightarrow> pydatetime \<Rightarrow> py_error + bool" where
  "dt_less (Naive a) (Naive b) = Inr (a < b)"
| "dt_less (Aware a) (Aware b) = Inr (a < b)"
| "dt_less _ _ = Inl TypeError"

text \<open>
  \<^verbatim>\<open>_parse_iso_safe\<close>. The library's \<^verbatim>\<open>datetime.fromisoformat\<close> is a parameter: it gives
  \<open>None\<close> where the library raises.
\<close>

definition parse_iso_safe :: "(string \<Rightarrow> pydatetime option) \<Rightarrow> string \<Rightarrow> pydatetime option" where
  "parse_iso_safe fromisoformat s =
     (if s = [] then None else fromisoformat (py_replace ''Z'' ''+00:00'' s))"

record pull_request =
  pr_mergeSha :: "string option"
  pr_mergedAt :: "string option"

record branch_info =
  br_name :: "string option"
  br_createdAt :: "string option"
  br_sha :: "string option"

record correlated_branch =
  cb_branch :: string
  cb_createdAt :: string
  cb_sha :: string
  cb_prMergedAt :: string

text \<open>
  \<^verbatim>\<open>github_check_commit_in_branch\<close>. The compare endpoint of the VCS is a parameter: for a
  branch and a commit it answers with the HTTP status code and the \<^verbatim>\<open>status\<close> field of
  the body, or \<open>None\<close> when the request raises.
\<close>

definition github_check_commit_in_branch ::
  "(string \<Rightarrow> string \<Rightarrow> (nat \<times> string option) option) \<Rightarrow> string \<Rightarrow> string \<Rightarrow> bool" where
  "github_check_commit_in_branch compare commit_sha branch =
     (if commit_sha = [] \<or> branch = [] then False
      else case compare branch commit_sha of
             None \<Rightarrow> False
           | Some (code, status) \<Rightarrow>
               if code = 404 then False
               else if code \<noteq> 200 then False
               else lower (or_empty status) \<in> set [''behind'', ''identical'', ''ahead''])"

definition mk_correlated :: "string \<Rightarrow> branch_info \<Rightarrow> correlated_branch" where
  "mk_correlated merged_at b =
     \<lparr>cb_branch = strip (or_empty (br_name b)),
      cb_createdAt = strip (or_empty (br_createdAt b)),
      cb_sha = strip (or_empty (br_sha b)),
      cb_prMergedAt = merged_at\<rparr>"

text \<open>The inner loop of \<^verbatim>\<open>correlate_prs_with_branches_time_aware\<close>, over the branches.\<close>

fun branches_loop ::
  "(string \<Rightarrow> string \<Rightarrow> (nat \<times> string option) option) \<Rightarrow> (string \<Rightarrow> pydatetime option) \<Rightarrow>
   string \<Rightarrow> string \<Rightarrow> pydatetime \<Rightarrow> branch_info list \<Rightarrow> correlated_branch list \<Rightarrow>
   py_error + correlated_branch list" where
  "branches_loop compare fromiso merge_sha merged_at merged_dt [] correlated = Inr correlated"
| "branches_loop compare fromiso merge_sha merged_at merged_dt (b # bs) correlated =
     (let branch_name = strip (or_empty (br_name b));
          branch_created_at = strip (or_empty (br_createdAt b)) in
      case parse_iso_safe fromiso branch_created_at of
        None \<Rightarrow> branches_loop compare fromiso merge_sha merged_at merged_dt bs correlated
      | Some branch_created_dt \<Rightarrow>
          (case dt_less branch_created_dt merged_dt of
             Inl e \<Rightarrow> Inl e
           | Inr True \<Rightarrow> branches_loop compare fromiso merge_sha merged_at merged_dt bs correlated
           | Inr False \<Rightarrow>
               (let branch_sha = strip (or_empty (br_sha b)) in
                if branch_sha = merge_sha then
                  branches_loop compare fromiso merge_sha merged_at merged_dt bs
                    (correlated @ [mk_correlated merged_at b])
                else if startswith branch_name ''release/'' \<or> branch_name \<in> set [''main'', ''master''] then
                  (if github_check_commit_in_branch compare merge_sha branch_name then
                     branches_loop compare fromiso merge_sha merged_at merged_dt bs
                       (correlated @ [mk_correlated merged_at b])
                   else branches_loop compare fromiso merge_sha merged_at merged_dt bs correlated)
                else branches_loop compare fromiso merge_sha merged_at merged_dt bs correlated)))"

text \<open>The outer loop, over the pull requests.\<close>

fun prs_loop ::
  "(string \<Rightarrow> string \<Rightarrow> (nat \<times> string option) option) \<Rightarrow> (string \<Rightarrow> pydatetime option) \<Rightarrow>
   pull_request list \<Rightarrow> branch_info list \<Rightarrow> correlated_branch list \<Rightarrow>
   py_error + correlated_branch list" where
  "prs_loop compare fromiso [] repo_branches correlated = Inr correlated"
| "prs_loop compare fromiso (pr # prs) repo_branches correlated =
     (let merge_sha = strip (or_empty (pr_mergeSha pr));
          merged_at = strip (or_empty (pr_mergedAt pr)) in
      case parse_iso_safe fromiso merged_at of
        None \<Rightarrow> prs_loop compare fromiso prs repo_branches correlated
      | Some merged_dt \<Rightarrow>
          if merge_sha = [] then prs_loop compare fromiso prs repo_branches correlated
          else (case branches_loop compare fromiso merge_sha merged_at merged_dt repo_branches correlated of
                  Inl e \<Rightarrow> Inl e
                | Inr correlated' \<Rightarrow> prs_loop compare fromiso prs repo_branches correlated'))"

definition correlate_prs_with_branches_time_aware ::
  "(string \<Rightarrow> string \<Rightarrow> (nat \<times> string option) option) \<Rightarrow> (string \<Rightarrow> pydatetime option) \<Rightarrow>
   pull_request list \<Rightarrow> branch_info list \<Rightarrow> py_error + correlated_branch list" where
  "correlate_prs_with_branches_time_aware compare fromiso prs repo_branches =
     (if prs = [] \<or> repo_branches = [] then Inr []
      else prs_loop compare fromiso prs repo_branches [])"

text \<open>
  The rule in the words of the specification: the branch's creation time is present,
  parseable and not before the merge time of the pull request, the pull request has a merge
  commit, and that commit is reachable from the branch: it is the branch tip, or the branch
  is main, master or a release branch and the full reachability check succeeds.
\<close>

definition time_valid_and_reachable ::
  "(string \<Rightarrow> string \<Rightarrow> (nat \<times> string option) option) \<Rightarrow> (string \<Rightarrow> pydatetime option) \<Rightarrow>
   pull_request \<Rightarrow> branch_info \<Rightarrow> bool" where
  "time_valid_and_reachable compare fromiso pr b =
     (case parse_iso_safe fromiso (strip (or_empty (br_createdAt b))) of
        None \<Rightarrow> False
      | Some created \<Rightarrow>
          (case parse_iso_safe fromiso (strip (or_empty (pr_mergedAt pr))) of
             None \<Rightarrow> False
           | Some merged \<Rightarrow>
               dt_less created merged = Inr False
               \<and> strip (or_empty (pr_mergeSha pr)) \<noteq> []
               \<and> (strip (or_empty (br_sha b)) = strip (or_empty (pr_mergeSha pr))
                  \<or> ((startswith (strip (or_empty (br_name b))) ''release/''
                       \<or> strip (or_empty (br_name b)) = ''main''
                       \<or> strip (or_empty (br_name b)) = ''master'')
                      \<and> github_check_commit_in_branch compare (strip (or_empty (pr_mergeSha pr)))
                            (strip (or_empty (br_name b)))))))"

definition attached_branches ::
  "(string \<Rightarrow> string \<Rightarrow> (nat \<times> string option) option) \<Rightarrow> (string \<Rightarrow> pydatetime option) \<Rightarrow>
   pull_request \<Rightarrow> branch_info list \<Rightarrow> correlated_branch list" where
  "attached_branches compare fromiso pr bs =
     map (mk_correlated (strip (or_empty (pr_mergedAt pr))))
         (filter (time_valid_and_reachable compare fromiso pr) bs)"

lemma branches_loop_result:
  assumes "branches_loop compare fromiso (strip (or_empty (pr_mergeSha pr)))
             (strip (or_empty (pr_mergedAt pr))) merged_dt bs acc = Inr res"
    and "parse_iso_safe fromiso (strip (or_empty (pr_mergedAt pr))) = Some merged_dt"
    and "strip (or_empty (pr_mergeSha pr)) \<noteq> []"
  shows "res = acc @ attached_branches compare fromiso pr bs"
  using assms
proof (induction bs arbitrary: acc)
  case Nil
  then show ?case by (simp add: attached_branches_def)
next
  case (Cons b bs)
  show ?case
  proof (cases "parse_iso_safe fromiso (strip (or_empty (br_createdAt b)))")
    case None
    with Cons show ?thesis
      by (simp add: attached_branches_def time_valid_and_reachable_def)
  next
    case (Some created)
    show ?thesis
    proof (cases "dt_less created merged_dt")
      case (Inl e)
      with Some Cons.prems show ?thesis by simp
    next
      case (Inr before)
      show ?thesis
      proof (cases before)
        case True
        with Inr Some Cons show ?thesis
          by (simp add: attached_branches_def time_valid_and_reachable_def)
      next
        case False
        let ?attach = "time_valid_and_reachable compare fromiso pr b"
        let ?acc' = "if ?attach then acc @ [mk_correlated (strip (or_empty (pr_mergedAt pr))) b] else acc"
        have att: "?attach \<longleftrightarrow>
            (strip (or_empty (br_sha b)) = strip (or_empty (pr_mergeSha pr))
             \<or> ((startswith (strip (or_empty (br_name b))) ''release/''
                  \<or> strip (or_empty (br_name b)) = ''main''
                  \<or> strip (or_empty (br_name b)) = ''master'')
                 \<and> github_check_commit_in_branch compare (strip (or_empty (pr_mergeSha pr)))
                       (strip (or_empty (br_name b)))))"
          using Some Inr False Cons.prems(2,3) by (simp add: time_valid_and_reachable_def)
        have step: "branches_loop compare fromiso (strip (or_empty (pr_mergeSha pr)))
             (strip (or_empty (pr_mergedAt pr))) merged_dt (b # bs) acc =
           branches_loop compare fromiso (strip (or_empty (pr_mergeSha pr)))
             (strip (or_empty (pr_mergedAt pr))) merged_dt bs ?acc'"
          using Some Inr False by (simp add: att Let_def)
        with Cons.prems(1) have "branches_loop compare fromiso (strip (or_empty (pr_mergeSha pr)))
             (strip (or_empty (pr_mergedAt pr))) merged_dt bs ?acc' = Inr res"
          by simp
        from Cons.IH [OF this Cons.prems(2,3)]
        have "res = ?acc' @ attached_branches compare fromiso pr bs" .
        then show ?thesis
          by (simp add: attached_branches_def)
      qed
    qed
  qed
qed

lemma prs_loop_result:
  "prs_loop compare fromiso prs bs acc = Inr res \<Longrightarrow>
     res = acc @ concat (map (\<lambda>pr. attached_branches compare fromiso pr bs) prs)"
proof (induction prs arbitrary: acc)
  case Nil
  then show ?case by simp
next
  case (Cons pr prs)
  show ?case
  proof (cases "parse_iso_safe fromiso (strip (or_empty (pr_mergedAt pr)))")
    case None
    then have "attached_branches compare fromiso pr bs = []"
      by (simp add: attached_branches_def time_valid_and_reachable_def split: option.splits)
    with None Cons show ?thesis by simp
  next
    case (Some merged_dt)
    show ?thesis
    proof (cases "strip (or_empty (pr_mergeSha pr)) = []")
      case True
      then have "attached_branches compare fromiso pr bs = []"
        by (simp add: attached_branches_def time_valid_and_reachable_def split: option.splits)
      with True Some Cons show ?thesis by simp
    next
      case False
      show ?thesis
      proof (cases "branches_loop compare fromiso (strip (or_empty (pr_mergeSha pr)))
                      (strip (or_empty (pr_mergedAt pr))) merged_dt bs acc")
        case (Inl e)
        with False Some Cons.prems show ?thesis by simp
      next
        case (Inr acc')
        from branches_loop_result [OF Inr Some False]
        have "acc' = acc @ attached_branches compare fromiso pr bs" .
        moreover from Inr False Some Cons.prems
        have "prs_loop compare fromiso prs bs acc' = Inr res" by simp
        ultimately show ?thesis using Cons.IH [of acc'] by simp
      qed
    qed
  qed
qed

lemma attached_branches_Nil [simp]: "attached_branches compare fromiso pr [] = []"
  by (simp add: attached_branches_def)

lemma correlate_result:
  assumes "correlate_prs_with_branches_time_aware compare fromiso prs bs = Inr res"
  shows "res = concat (map (\<lambda>pr. attached_branches compare fromiso pr bs) prs)"
proof (cases "prs = [] \<or> bs = []")
  case True
  with assms show ?thesis
    by (auto simp: correlate_prs_with_branches_time_aware_def)
next
  case False
  with assms prs_loop_result [of compare fromiso prs bs "[]" res] show ?thesis
    by (simp add: correlate_prs_with_branches_time_aware_def)
qed

lemma parse_iso_safe_aware:
  "\<forall>s t. fromiso s \<noteq> Some (Naive t) \<Longrightarrow> parse_iso_safe fromiso s = Some d \<Longrightarrow> \<exists>a. d = Aware a"
  by (cases d) (auto simp: parse_iso_safe_def split: if_splits)

lemma branches_loop_total:
  assumes "\<forall>s t. fromiso s \<noteq> Some (Naive t)"
  shows "\<exists>res. branches_loop compare fromiso merge_sha merged_at (Aware m) bs acc = Inr res"
proof (induction bs arbitrary: acc)
  case Nil
  then show ?case by simp
next
  case (Cons b bs)
  show ?case
  proof (cases "parse_iso_safe fromiso (strip (or_empty (br_createdAt b)))")
    case None
    with Cons show ?thesis by simp
  next
    case (Some created)
    with parse_iso_safe_aware [OF assms Some] obtain c where c: "created = Aware c" by blast
    show ?thesis
      using Some c Cons [of acc]
        Cons [of "acc @ [mk_correlated merged_at b]"]
      by (cases "c < m") (simp_all add: Let_def)
  qed
qed

lemma prs_loop_total:
  assumes "\<forall>s t. fromiso s \<noteq> Some (Naive t)"
  shows "\<exists>res. prs_loop compare fromiso prs bs acc = Inr res"
proof (induction prs arbitrary: acc)
  case Nil
  then show ?case by simp
next
  case (Cons pr prs)
  show ?case
  proof (cases "parse_iso_safe fromiso (strip (or_empty (pr_mergedAt pr)))")
    case None
    with Cons show ?thesis by simp
  next
    case (Some merged_dt)
    with parse_iso_safe_aware [OF assms Some] obtain m where m: "merged_dt = Aware m" by blast
    from branches_loop_total [OF assms, of compare "strip (or_empty (pr_mergeSha pr))"
        "strip (or_empty (pr_mergedAt pr))" m bs acc]
    obtain acc' where "branches_loop compare fromiso (strip (or_empty (pr_mergeSha pr)))
        (strip (or_empty (pr_mergedAt pr))) (Aware m) bs acc = Inr acc'" by blast
    with Some m Cons [of acc] Cons [of acc'] show ?thesis
      by (simp add: Let_def)
  qed
qed

text \<open>
  C2. Time-aware correlation of pull requests with branches is fail-closed. Whenever the
  correlation returns, its result lists, in order, exactly the pairs of a pull request and a
  branch for which the branch's creation time is present, parseable and not before the
  merge time, the pull request has a merge commit, and the commit is the branch tip or, for
  main, master and release branches, the reachability check succeeds; a missing timestamp
  or commit excludes the pair. The correlation returns whenever the parsed timestamps are
  all timezone-aware.
\<close>

theorem pr_branch_correlation_fail_closed:
  "(correlate_prs_with_branches_time_aware compare fromiso prs bs = Inr res \<longrightarrow>
      res = concat (map (\<lambda>pr. attached_branches compare fromiso pr bs) prs)
      \<and> (\<forall>e. e \<in> set res \<longleftrightarrow>
            (\<exists>pr \<in> set prs. \<exists>b \<in> set bs.
               time_valid_and_reachable compare fromiso pr b
               \<and> e = mk_correlated (strip (or_empty (pr_mergedAt pr))) b)))
   \<and> ((\<forall>s t. fromiso s \<noteq> Some (Naive t)) \<longrightarrow>
        (\<exists>r. correlate_prs_with_branches_time_aware compare fromiso prs bs = Inr r))"
proof (intro conjI impI)
  assume r: "correlate_prs_with_branches_time_aware compare fromiso prs bs = Inr res"
  from correlate_result [OF r]
  show eq: "res = concat (map (\<lambda>pr. attached_branches compare fromiso pr bs) prs)" .
  show "\<forall>e. e \<in> set res \<longleftrightarrow>
            (\<exists>pr \<in> set prs. \<exists>b \<in> set bs.
               time_valid_and_reachable compare fromiso pr b
               \<and> e = mk_correlated (strip (or_empty (pr_mergedAt pr))) b)"
    unfolding eq by (auto simp: attached_branches_def)
next
  assume "\<forall>s t. fromiso s \<noteq> Some (Naive t)"
  from prs_loop_total [OF this, of compare prs bs "[]"]
  show "\<exists>r. correlate_prs_with_branches_time_aware compare fromiso prs bs = Inr r"
    by (simp add: correlate_prs_with_branches_time_aware_def)
qed

text \<open>
  The scenario of the specification: pull request 7, merged 2026-01-10T10:00:00Z with merge
  commit s1; branch release/1.2.0 was created the day before and is left out, branch
  release/1.2.1 was created the day after, contains s1, and is attached.
\<close>

theorem pr_branch_correlation_fail_closed_witness:
  "correlate_prs_with_branches_time_aware
     (\<lambda>branch sha. if branch = ''release/1.2.1'' \<and> sha = ''s1''
                    then Some (200, Some ''behind'') else Some (404, None))
     (\<lambda>s. map_option Aware (map_of
        [(''2026-01-10T10:00:00+00:00'', 1768039200000000),
         (''2026-01-09T00:00:00+00:00'', 1767916800000000),
         (''2026-01-11T00:00:00+00:00'', 1768089600000000)] s))
     [\<lparr>pr_mergeSha = Some ''s1'', pr_mergedAt = Some ''2026-01-10T10:00:00Z''\<rparr>]
     [\<lparr>br_name = Some ''release/1.2.0'', br_createdAt = Some ''2026-01-09T00:00:00Z'',
        br_sha = Some ''t0''\<rparr>,
      \<lparr>br_name = Some ''release/1.2.1'', br_createdAt = Some ''2026-01-11T00:00:00Z'',
        br_sha = Some ''t1''\<rparr>]
   = Inr [\<lparr>cb_branch = ''release/1.2.1'', cb_createdAt = ''2026-01-11T00:00:00Z'',
            cb_sha = ''t1'', cb_prMergedAt = ''2026-01-10T10:00:00Z''\<rparr>]
   \<and> time_valid_and_reachable
     (\<lambda>branch sha. if branch = ''release/1.2.1'' \<and> sha = ''s1''
                    then Some (200, Some ''behind'') else Some (404, None))
     (\<lambda>s. map_option Aware (map_of
        [(''2026-01-10T10:00:00+00:00'', 1768039200000000),
         (''2026-01-09T00:00:00+00:00'', 1767916800000000),
         (''2026-01-11T00:00:00+00:00'', 1768089600000000)] s))
     \<lparr>pr_mergeSha = Some ''s1'', pr_mergedAt = Some ''2026-01-10T10:00:00Z''\<rparr>
     \<lparr>br_name = Some ''release/1.2.1'', br_createdAt = Some ''2026-01-11T00:00:00Z'',
        br_sha = Some ''t1''\<rparr>
   \<and> \<not> time_valid_and_reachable
     (\<lambda>branch sha. if branch = ''release/1.2.1'' \<and> sha = ''s1''
                    then Some (200, Some ''behind'') else Some (404, None))
     (\<lambda>s. map_option Aware (map_of
        [(''2026-01-10T10:00:00+00:00'', 1768039200000000),
         (''2026-01-09T00:00:00+00:00'', 1767916800000000),
         (''2026-01-11T00:00:00+00:00'', 1768089600000000)] s))
     \<lparr>pr_mergeSha = Some ''s1'', pr_mergedAt = Some ''2026-01-10T10:00:00Z''\<rparr>
     \<lparr>br_name = Some ''release/1.2.0'', br_createdAt = Some ''2026-01-09T00:00:00Z'',
        br_sha = Some ''t0''\<rparr>"
proof -
  let ?compare = "\<lambda>branch sha. if branch = ''release/1.2.1'' \<and> sha = ''s1''
                    then Some (200::nat, Some ''behind'') else Some (404, None)"
  let ?fromiso = "\<lambda>s. map_option Aware (map_of
        [(''2026-01-10T10:00:00+00:00'', 1768039200000000),
         (''2026-01-09T00:00:00+00:00'', 1767916800000000),
         (''2026-01-11T00:00:00+00:00'', 1768089600000000)] s)"
  let ?pr = "\<lparr>pr_mergeSha = Some ''s1'', pr_mergedAt = Some ''2026-01-10T10:00:00Z''\<rparr>"
  let ?b0 = "\<lparr>br_name = Some ''release/1.2.0'', br_createdAt = Some ''2026-01-09T00:00:00Z'',
        br_sha = Some ''t0''\<rparr>"
  let ?b1 = "\<lparr>br_name = Some ''release/1.2.1'', br_createdAt = Some ''2026-01-11T00:00:00Z'',
        br_sha = Some ''t1''\<rparr>"
  have aware: "\<forall>s t. ?fromiso s \<noteq> Some (Naive t)"
    by auto
  have v1: "time_valid_and_reachable ?compare ?fromiso ?pr ?b1"
    by (simp add: time_valid_and_reachable_def parse_iso_safe_def strip_def or_empty_def
          py_isspace_def startswith_def github_check_commit_in_branch_def lower_def
          py_lower_char_def)
  have v0: "\<not> time_valid_and_reachable ?compare ?fromiso ?pr ?b0"
    by (simp add: time_valid_and_reachable_def parse_iso_safe_def strip_def or_empty_def
          py_isspace_def startswith_def)
  from pr_branch_correlation_fail_closed [of ?compare ?fromiso "[?pr]" "[?b0, ?b1]"] aware
  obtain r where r: "correlate_prs_with_branches_time_aware ?compare ?fromiso [?pr] [?b0, ?b1] = Inr r"
    by blast
  with pr_branch_correlation_fail_closed [of ?compare ?fromiso "[?pr]" "[?b0, ?b1]" r]
  have "r = concat (map (\<lambda>pr. attached_branches ?compare ?fromiso pr [?b0, ?b1]) [?pr])"
    by blast
  with v0 v1 have "r = [mk_correlated (strip (or_empty (pr_mergedAt ?pr))) ?b1]"
    by (simp add: attached_branches_def)
  then have "r = [\<lparr>cb_branch = ''release/1.2.1'', cb_createdAt = ''2026-01-11T00:00:00Z'',
            cb_sha = ''t1'', cb_prMergedAt = ''2026-01-10T10:00:00Z''\<rparr>]"
    by (simp add: mk_correlated_def strip_def or_empty_def py_isspace_def)
  with r v0 v1 show ?thesis by blast
qed

section \<open>Assembled components and environment status\<close>

text \<open>
  A component of the snapshot document, with the fields the history store and the
  environment summary read. A field is \<open>None\<close> when the key is missing or \<^verbatim>\<open>null\<close>;
  \<open>c_warnings\<close> is the list under \<^verbatim>\<open>warnings\<close>, which the assembler sets only when it is
  not empty.
\<close>

record component =
  c_name :: "string option"
  c_tag :: "string option"
  c_deployedAt :: "string option"
  c_deployer :: "string option"
  c_deployerCommitUrl :: "string option"
  c_kustomizationUrl :: "string option"
  c_buildUrl :: "string option"
  c_warnings :: "pydict list option"

text \<open>
  What the monitoring enrichment of one environment hands to the status computation in
  \<^verbatim>\<open>main\<close>: the status of each configured query (\<^verbatim>\<open>dd_meta\<close>), the derived
  \<^verbatim>\<open>dd_status\<close>, and the \<^verbatim>\<open>envWarnings\<close> of the observability summary.
\<close>

record datadog_health =
  dd_meta_status :: "string list"
  dd_status :: string
  obs_envWarnings :: "pydict list"

definition has_comp_warnings :: "component list \<Rightarrow> bool" where
  "has_comp_warnings env_components =
     list_ex (\<lambda>c. case c_warnings c of None \<Rightarrow> False | Some ws \<Rightarrow> 0 < length ws) env_components"

definition datadog_env_warnings :: "string \<Rightarrow> datadog_health \<Rightarrow> pydict list" where
  "datadog_env_warnings dd_site h =
     (if \<not> list_ex (\<lambda>st. st = ''ok'') (dd_meta_status h)
      then [[(''key'', JStr ''datadog_no_data''), (''severity'', JStr ''info''),
             (''message'', JStr ''Datadog enabled but no data returned for configured queries.''),
             (''source'', JObj [(''integration'', JStr ''datadog''), (''site'', JStr dd_site)])]]
      else [])
     @ (if dd_status h \<in> set [''degraded'', ''unhealthy'']
        then [[(''key'', JStr (''datadog_'' @ dd_status h)),
               (''severity'', JStr (if dd_status h = ''degraded'' then ''warn'' else ''error'')),
               (''message'', JStr (''Datadog signals indicate: '' @ dd_status h @ ''.'')),
               (''source'', JObj [(''integration'', JStr ''datadog''), (''site'', JStr dd_site)])]]
        else [])
     @ obs_envWarnings h"

text \<open>
  The environment-level warnings of \<^verbatim>\<open>main\<close>; the monitoring part is absent when the
  project does not use the monitoring provider.
\<close>

definition env_warnings_of :: "string \<Rightarrow> component list \<Rightarrow> datadog_health option \<Rightarrow> pydict list" where
  "env_warnings_of dd_site env_components dd =
     (if has_comp_warnings env_components
      then [[(''code'', JStr ''PARTIAL_COMPONENT_DATA''),
             (''message'', JStr ''Some components have incomplete deployment metadata'')]]
      else [])
     @ (case dd of None \<Rightarrow> [] | Some h \<Rightarrow> datadog_env_warnings dd_site h)"

record environment_out =
  eo_status :: string
  eo_components :: "component list"
  eo_warnings :: "pydict list option"

definition assemble_env_out :: "string \<Rightarrow> component list \<Rightarrow> datadog_health option \<Rightarrow> environment_out" where
  "assemble_env_out dd_site env_components dd =
     (let env_warnings = env_warnings_of dd_site env_components dd;
          env_status = (if env_warnings \<noteq> [] then ''warn'' else ''healthy'') in
      \<lparr>eo_status = env_status,
       eo_components = env_components,
       eo_warnings = (if env_warnings \<noteq> [] then Some env_warnings else None)\<rparr>)"

lemma env_warnings_of_comp:
  "has_comp_warnings cs \<Longrightarrow> env_warnings_of site cs dd \<noteq> []"
  by (simp add: env_warnings_of_def)

text \<open>
  C6. The status of an assembled environment is warn when one of its components carries a
  non-empty warnings list or the monitoring enrichment produced an environment-level
  warning, and healthy otherwise; so every component has no warnings or sits in an
  environment whose status is warn.
\<close>

theorem env_status_warn_iff:
  "(eo_status (assemble_env_out site cs dd) = ''warn'' \<longleftrightarrow>
      (\<exists>c \<in> set cs. \<exists>ws. c_warnings c = Some ws \<and> ws \<noteq> [])
      \<or> (\<exists>h. dd = Some h \<and> datadog_env_warnings site h \<noteq> []))
   \<and> (eo_status (assemble_env_out site cs dd) = ''healthy'' \<longleftrightarrow>
      \<not> ((\<exists>c \<in> set cs. \<exists>ws. c_warnings c = Some ws \<and> ws \<noteq> [])
         \<or> (\<exists>h. dd = Some h \<and> datadog_env_warnings site h \<noteq> [])))
   \<and> (\<forall>c \<in> set (eo_components (assemble_env_out site cs dd)).
        c_warnings c = None \<or> c_warnings c = Some []
        \<or> eo_status (assemble_env_out site cs dd) = ''warn'')"
proof -
  have hc: "has_comp_warnings cs \<longleftrightarrow> (\<exists>c \<in> set cs. \<exists>ws. c_warnings c = Some ws \<and> ws \<noteq> [])"
    by (auto simp: has_comp_warnings_def list_ex_iff split: option.splits)
  have w: "env_warnings_of site cs dd \<noteq> [] \<longleftrightarrow>
      (\<exists>c \<in> set cs. \<exists>ws. c_warnings c = Some ws \<and> ws \<noteq> [])
      \<or> (\<exists>h. dd = Some h \<and> datadog_env_warnings site h \<noteq> [])"
    unfolding hc [symmetric] by (cases dd) (auto simp: env_warnings_of_def)
  have s1: "eo_status (assemble_env_out site cs dd) = ''warn'' \<longleftrightarrow> env_warnings_of site cs dd \<noteq> []"
    by (simp add: assemble_env_out_def Let_def)
  have s2: "eo_status (assemble_env_out site cs dd) = ''healthy'' \<longleftrightarrow> env_warnings_of site cs dd = []"
    by (simp add: assemble_env_out_def Let_def)
  have comps: "eo_components (assemble_env_out site cs dd) = cs"
    by (simp add: assemble_env_out_def Let_def)
  have c3: "\<forall>c \<in> set cs. c_warnings c = None \<or> c_warnings c = Some []
        \<or> eo_status (assemble_env_out site cs dd) = ''warn''"
  proof
    fix c assume c: "c \<in> set cs"
    show "c_warnings c = None \<or> c_warnings c = Some []
        \<or> eo_status (assemble_env_out site cs dd) = ''warn''"
    proof (cases "c_warnings c")
      case None
      then show ?thesis by simp
    next
      case (Some ws)
      show ?thesis
      proof (cases "ws = []")
        case True
        with Some show ?thesis by simp
      next
        case False
        with Some c have "env_warnings_of site cs dd \<noteq> []"
          unfolding w by blast
        with s1 show ?thesis by simp
      qed
    qed
  qed
  have g1: "eo_status (assemble_env_out site cs dd) = ''warn'' \<longleftrightarrow>
      (\<exists>c \<in> set cs. \<exists>ws. c_warnings c = Some ws \<and> ws \<noteq> [])
      \<or> (\<exists>h. dd = Some h \<and> datadog_env_warnings site h \<noteq> [])"
    using s1 w by blast
  have g2: "eo_status (assemble_env_out site cs dd) = ''healthy'' \<longleftrightarrow>
      \<not> ((\<exists>c \<in> set cs. \<exists>ws. c_warnings c = Some ws \<and> ws \<noteq> [])
         \<or> (\<exists>h. dd = Some h \<and> datadog_env_warnings site h \<noteq> []))"
    using s2 w by blast
  have g3: "\<forall>c \<in> set (eo_components (assemble_env_out site cs dd)).
        c_warnings c = None \<or> c_warnings c = Some []
        \<or> eo_status (assemble_env_out site cs dd) = ''warn''"
    using c3 unfolding comps .
  from g1 g2 g3 show ?thesis by (intro conjI)
qed

theorem env_status_warn_iff_witness:
  "eo_status (assemble_env_out ''datadoghq.com''
      [\<lparr>c_name = Some ''svc-a'', c_tag = Some ''svc-a-v0.0.11'', c_deployedAt = Some ''2026-01-19T12:00:00Z'',
        c_deployer = Some ''dev1'', c_deployerCommitUrl = None, c_kustomizationUrl = None,
        c_buildUrl = None, c_warnings = None\<rparr>,
       \<lparr>c_name = Some ''svc-b'', c_tag = Some [], c_deployedAt = Some [],
        c_deployer = Some [], c_deployerCommitUrl = Some [], c_kustomizationUrl = Some [],
        c_buildUrl = Some [],
        c_warnings = Some [[(''code'', JStr ''NO_KUSTOMIZATION''),
          (''message'', JStr ''kustomization.yaml not found or cannot be fetched for this environment'')]]\<rparr>]
      None) = ''warn''
   \<and> eo_status (assemble_env_out ''datadoghq.com''
      [\<lparr>c_name = Some ''svc-a'', c_tag = Some ''svc-a-v0.0.11'', c_deployedAt = Some ''2026-01-19T12:00:00Z'',
        c_deployer = Some ''dev1'', c_deployerCommitUrl = None, c_kustomizationUrl = None,
        c_buildUrl = None, c_warnings = None\<rparr>]
      None) = ''healthy''"
proof -
  let ?a = "\<lparr>c_name = Some ''svc-a'', c_tag = Some ''svc-a-v0.0.11'', c_deployedAt = Some ''2026-01-19T12:00:00Z'',
        c_deployer = Some ''dev1'', c_deployerCommitUrl = None, c_kustomizationUrl = None,
        c_buildUrl = None, c_warnings = None\<rparr>"
  let ?b = "\<lparr>c_name = Some ''svc-b'', c_tag = Some [], c_deployedAt = Some [],
        c_deployer = Some [], c_deployerCommitUrl = Some [], c_kustomizationUrl = Some [],
        c_buildUrl = Some [],
        c_warnings = Some [[(''code'', JStr ''NO_KUSTOMIZATION''),
          (''message'', JStr ''kustomization.yaml not found or cannot be fetched for this environment'')]]\<rparr>"
  have "eo_status (assemble_env_out ''datadoghq.com'' [?a, ?b] None) = ''warn''"
    using env_status_warn_iff [of "''datadoghq.com''" "[?a, ?b]" None] by simp
  moreover have "eo_status (assemble_env_out ''datadoghq.com'' [?a] None) = ''healthy''"
    using env_status_warn_iff [of "''datadoghq.com''" "[?a]" None] by simp
  ultimately show ?thesis by blast
qed

section \<open>Observability collection\<close>





























section \<open>Tag-change events of the release history\<close>

definition py_isdigit :: "char \<Rightarrow> bool" where
  "py_isdigit c = (let n = (of_char c :: nat) in 48 \<le> n \<and> n \<le> 57)"

text \<open>
  \<^verbatim>\<open>str.upper()\<close> on the letters of the 8-bit range whose capital lies in that
  range. The capitals of the micro sign (181), of the sharp s (223) and of the y with
  diaeresis (255) do not; these three characters are left as they are.
\<close>

definition py_upper_char :: "char \<Rightarrow> char" where
  "py_upper_char c = (let n = (of_char c :: nat) in
     if (97 \<le> n \<and> n \<le> 122) \<or> (224 \<le> n \<and> n \<le> 254 \<and> n \<noteq> 247)
     then char_of (n - 32) else c)"

definition upper :: "string \<Rightarrow> string" where
  "upper s = map py_upper_char s"

fun py_split :: "char \<Rightarrow> string \<Rightarrow> string list" where
  "py_split sep [] = [[]]"
| "py_split sep (x # xs) =
     (if x = sep then [] # py_split sep xs
      else (case py_split sep xs of [] \<Rightarrow> [[x]] | w # ws \<Rightarrow> (x # w) # ws))"

definition rstrip_char :: "char \<Rightarrow> string \<Rightarrow> string" where
  "rstrip_char c s = rev (dropWhile (\<lambda>x. x = c) (rev s))"

text \<open>The order of \<^verbatim>\<open>str\<close>: lexicographic on code points.\<close>

fun str_less :: "string \<Rightarrow> string \<Rightarrow> bool" where
  "str_less [] [] = False"
| "str_less [] (y # ys) = True"
| "str_less (x # xs) [] = False"
| "str_less (x # xs) (y # ys) =
     ((of_char x :: nat) < of_char y \<or> (x = y \<and> str_less xs ys))"

text \<open>
  A Python dictionary with keys of any type, as an association list in insertion order:
  assigning to an existing key keeps its position.
\<close>

fun dict_set :: "'k \<Rightarrow> 'v \<Rightarrow> ('k \<times> 'v) list \<Rightarrow> ('k \<times> 'v) list" where
  "dict_set k v [] = [(k, v)]"
| "dict_set k v ((k', v') # rest) =
     (if k = k' then (k, v) # rest else (k', v') # dict_set k v rest)"

definition dict_of_items :: "('k \<times> 'v) list \<Rightarrow> ('k \<times> 'v) list" where
  "dict_of_items items = foldl (\<lambda>d (k, v). dict_set k v d) [] items"

text \<open>\<^verbatim>\<open>out.setdefault(k, []).append(v)\<close>\<close>

fun dict_append :: "'k \<Rightarrow> 'v \<Rightarrow> ('k \<times> 'v list) list \<Rightarrow> ('k \<times> 'v list) list" where
  "dict_append k v [] = [(k, [v])]"
| "dict_append k v ((k', vs) # rest) =
     (if k = k' then (k', vs @ [v]) # rest else (k', vs) # dict_append k v rest)"

record environment =
  e_key :: "string option"
  e_name :: "string option"
  e_deployer :: "string option"
  e_components :: "component list"

record project =
  p_key :: "string option"
  p_environments :: "environment list"

definition normalize_env_key :: "string option \<Rightarrow> string option" where
  "normalize_env_key key =
     (case key of
        None \<Rightarrow> None
      | Some k \<Rightarrow> if k = [] then None
                  else if strip k = [] then None
                  else Some (lower (strip k)))"

text \<open>
  \<^verbatim>\<open>normalize_tag\<close>: the two substitutions drop the dot of a leading \<^verbatim>\<open>v.\<close> and of every
  \<^verbatim>\<open>-v.\<close> that a digit follows.
\<close>

fun sub_dash_v_dot :: "string \<Rightarrow> string" where
  "sub_dash_v_dot (a # b # c # d # rest) =
     (if a = CHR ''-'' \<and> b = CHR ''v'' \<and> c = CHR ''.'' \<and> py_isdigit d
      then CHR ''-'' # CHR ''v'' # sub_dash_v_dot (d # rest)
      else a # sub_dash_v_dot (b # c # d # rest))"
| "sub_dash_v_dot s = s"

definition normalize_tag :: "string \<Rightarrow> string" where
  "normalize_tag tag =
     (if tag = [] then []
      else let t = strip tag;
               t1 = (case t of
                       a # b # c # rest \<Rightarrow>
                         if a = CHR ''v'' \<and> b = CHR ''.'' \<and> py_isdigit c then CHR ''v'' # c # rest else t
                     | _ \<Rightarrow> t)
           in sub_dash_v_dot t1)"

text \<open>
  \<^verbatim>\<open>extract_build_number\<close>. The pattern \<^verbatim>\<open>v\d+\.\d+\.(\d+)$\<close> is searched in the
  normalised tag; it can only match a suffix made of the letter v and three runs of digits
  separated by dots, each run being the longest one, so the match is read off from the end
  of the tag. The group is the last run.
\<close>

definition extract_build_number :: "string \<Rightarrow> string" where
  "extract_build_number tag0 =
     (let tag = normalize_tag tag0 in
      if tag = [] then []
      else let r = rev tag;
               g3 = takeWhile py_isdigit r; r3 = dropWhile py_isdigit r;
               g2 = takeWhile py_isdigit (drop 1 r3); r2 = dropWhile py_isdigit (drop 1 r3);
               g1 = takeWhile py_isdigit (drop 1 r2); r1 = dropWhile py_isdigit (drop 1 r2)
           in if g3 \<noteq> [] \<and> take 1 r3 = ''.'' \<and> g2 \<noteq> [] \<and> take 1 r2 = ''.''
                 \<and> g1 \<noteq> [] \<and> take 1 r1 = ''v''
              then rev g3 else [])"

definition extract_commit_sha :: "string \<Rightarrow> string" where
  "extract_commit_sha commit_url =
     (if commit_url = [] then []
      else let parts = py_split CHR ''/'' (rstrip_char CHR ''/'' commit_url) in
           case dropWhile (\<lambda>p. p \<noteq> ''commit'') parts of
             _ # nxt # _ \<Rightarrow> nxt
           | _ \<Rightarrow> if parts = [] then [] else last parts)"

record history_link =
  l_type :: string
  l_label :: string
  l_url :: string

record history_event =
  ev_id :: string
  ev_kind :: string
  ev_bootstrap :: bool
  ev_projectKey :: string
  ev_envKey :: string
  ev_envName :: string
  ev_component :: string
  ev_fromTag :: string
  ev_toTag :: string
  ev_fromBuild :: string
  ev_toBuild :: string
  ev_at :: string
  ev_by :: string
  ev_commitUrl :: string
  ev_kustomizationUrl :: string
  ev_links :: "history_link list"
  ev_warnings :: "pydict list option"

text \<open>
  \<^verbatim>\<open>_mk_history_event\<close>. The last argument is the reading of the clock, \<^verbatim>\<open>iso_now()\<close>,
  at the time the event is made.
\<close>

definition mk_history_event ::
  "string \<Rightarrow> environment \<Rightarrow> component \<Rightarrow> string \<Rightarrow> string \<Rightarrow> string \<Rightarrow> history_event" where
  "mk_history_event project_key env cmpt from_tag to_tag now =
     (let env_key = or_empty (normalize_env_key (e_key env));
          env_name = strip (if or_empty (e_name env) \<noteq> [] then or_empty (e_name env) else upper env_key);
          comp_name = strip (or_empty (c_name cmpt));
          commit_url = strip (or_empty (c_deployerCommitUrl cmpt));
          kustom_url = strip (or_empty (c_kustomizationUrl cmpt));
          build_url = strip (or_empty (c_buildUrl cmpt));
          at_ts = (if strip (or_empty (c_deployedAt cmpt)) \<noteq> [] then strip (or_empty (c_deployedAt cmpt)) else now);
          by_who = (if strip (or_empty (c_deployer cmpt)) \<noteq> [] then strip (or_empty (c_deployer cmpt))
                else strip (or_empty (e_deployer env)));
          sha = extract_commit_sha commit_url;
          event_id = (if sha \<noteq> []
                   then sha @ '':'' @ project_key @ '':'' @ env_key @ '':'' @ comp_name @ '':'' @ to_tag
                   else project_key @ '':'' @ env_key @ '':'' @ comp_name @ '':'' @ to_tag @ '':'' @ at_ts);
          links = (if commit_url \<noteq> [] then [\<lparr>l_type = ''commit'', l_label = ''Commit'', l_url = commit_url\<rparr>] else [])
                  @ (if kustom_url \<noteq> []
                     then [\<lparr>l_type = ''kustomization'', l_label = ''Kustomization'', l_url = kustom_url\<rparr>] else [])
                  @ (if build_url \<noteq> [] then [\<lparr>l_type = ''teamcity'', l_label = ''TeamCity'', l_url = build_url\<rparr>] else []);
          warnings = (case c_warnings cmpt of
                        None \<Rightarrow> []
                      | Some ws \<Rightarrow> if ws \<noteq> []
                                   then [[(''code'', JStr ''HISTORY_PARTIAL''),
                                          (''message'', JStr ''Historical entry may be partial due to missing metadata.'')]]
                                   else [])
      in \<lparr>ev_id = event_id, ev_kind = ''TAG_CHANGE'', ev_bootstrap = False,
          ev_projectKey = project_key, ev_envKey = env_key, ev_envName = env_name,
          ev_component = comp_name, ev_fromTag = strip from_tag, ev_toTag = strip to_tag,
          ev_fromBuild = extract_build_number from_tag, ev_toBuild = extract_build_number to_tag,
          ev_at = at_ts, ev_by = by_who, ev_commitUrl = commit_url, ev_kustomizationUrl = kustom_url,
          ev_links = links, ev_warnings = (if warnings \<noteq> [] then Some warnings else None)\<rparr>)"

type_synonym comp_key = "string \<times> string \<times> string"

text \<open>
  \<^verbatim>\<open>_component_map\<close>: the nested loops assign, in document order, every component whose
  project key, environment key and name are all non-empty.
\<close>

definition component_items :: "project list \<Rightarrow> (comp_key \<times> environment \<times> component) list" where
  "component_items projects =
     concat (map (\<lambda>proj.
       concat (map (\<lambda>env.
         concat (map (\<lambda>cmpt.
           (let pkey = strip (or_empty (p_key proj));
                ekey = lower (strip (or_empty (e_key env)));
                cname = strip (or_empty (c_name cmpt))
            in if pkey \<noteq> [] \<and> ekey \<noteq> [] \<and> cname \<noteq> [] then [((pkey, ekey, cname), (env, cmpt))] else []))
           (e_components env)))
         (p_environments proj)))
       projects)"

definition component_map :: "project list \<Rightarrow> (comp_key \<times> environment \<times> component) list" where
  "component_map projects = dict_of_items (component_items projects)"

definition comp_tag :: "component \<Rightarrow> string" where
  "comp_tag cmpt = strip (or_empty (c_tag cmpt))"

definition prev_tag_of :: "(comp_key \<times> environment \<times> component) list \<Rightarrow> comp_key \<Rightarrow> string" where
  "prev_tag_of prev_map key = (case map_of prev_map key of None \<Rightarrow> [] | Some (_, pc) \<Rightarrow> comp_tag pc)"

definition tag_changed :: "string \<Rightarrow> string \<Rightarrow> bool" where
  "tag_changed prev_tag cur_tag = (prev_tag \<noteq> [] \<and> cur_tag \<noteq> [] \<and> prev_tag \<noteq> cur_tag)"

text \<open>The loop of \<^verbatim>\<open>compute_tag_change_events\<close> over the current component map.\<close>

fun events_loop ::
  "(comp_key \<Rightarrow> string) \<Rightarrow> (comp_key \<times> environment \<times> component) list \<Rightarrow>
   (comp_key \<times> environment \<times> component) list \<Rightarrow> (string \<times> history_event list) list \<Rightarrow>
   (string \<times> history_event list) list" where
  "events_loop clock prev_map [] out = out"
| "events_loop clock prev_map ((key, cur_env, cur_comp) # rest) out =
     (let pkey = fst key;
          cur_tag = comp_tag cur_comp;
          prev_tag = prev_tag_of prev_map key
      in if tag_changed prev_tag cur_tag
         then events_loop clock prev_map rest
                (dict_append pkey (mk_history_event pkey cur_env cur_comp prev_tag cur_tag (clock key)) out)
         else events_loop clock prev_map rest out)"

text \<open>
  \<^verbatim>\<open>list.sort(key=..., reverse=True)\<close> on the \<^verbatim>\<open>at\<close> field: a stable sort, newest
  first.
\<close>

fun insort_at_desc :: "history_event \<Rightarrow> history_event list \<Rightarrow> history_event list" where
  "insort_at_desc e [] = [e]"
| "insort_at_desc e (x # xs) =
     (if str_less (ev_at e) (ev_at x) then x # insort_at_desc e xs else e # x # xs)"

definition sort_at_desc :: "history_event list \<Rightarrow> history_event list" where
  "sort_at_desc es = foldr insort_at_desc es []"

text \<open>
  \<^verbatim>\<open>compute_tag_change_events\<close>. A missing previous snapshot is \<open>None\<close>. The clock gives,
  for each component key, the time at which its event is made.
\<close>

definition compute_tag_change_events ::
  "(comp_key \<Rightarrow> string) \<Rightarrow> project list option \<Rightarrow> project list \<Rightarrow> (string \<times> history_event list) list" where
  "compute_tag_change_events clock prev_snapshot current_snapshot =
     (let prev_map = component_map (case prev_snapshot of None \<Rightarrow> [] | Some ps \<Rightarrow> ps);
          cur_map = component_map current_snapshot;
          out = events_loop clock prev_map cur_map []
      in map (\<lambda>(pk, es). (pk, sort_at_desc es)) out)"

lemma dict_set_fst_subset: "fst ` set (dict_set k v d) = insert k (fst ` set d)"
  by (induction k v d rule: dict_set.induct) (simp_all add: insert_commute)

lemma dict_set_distinct: "distinct (map fst d) \<Longrightarrow> distinct (map fst (dict_set k v d))"
proof (induction d)
  case Nil
  then show ?case by simp
next
  case (Cons a d)
  obtain k' v' where a: "a = (k', v')" by (cases a) auto
  show ?case
  proof (cases "k = k'")
    case True
    with Cons.prems a show ?thesis by simp
  next
    case False
    from Cons.prems a have "k' \<notin> fst ` set d" by simp
    with False have "k' \<notin> fst ` set (dict_set k v d)"
      by (simp add: dict_set_fst_subset)
    with Cons a False show ?thesis by simp
  qed
qed

lemma dict_set_subset: "set (dict_set k v d) \<subseteq> insert (k, v) (set d)"
  by (induction k v d rule: dict_set.induct) auto

lemma foldl_dict_set_inv:
  "distinct (map fst d) \<Longrightarrow>
   distinct (map fst (foldl (\<lambda>d (k, v). dict_set k v d) d items))
   \<and> set (foldl (\<lambda>d (k, v). dict_set k v d) d items) \<subseteq> set d \<union> set items"
proof (induction items arbitrary: d)
  case Nil
  then show ?case by simp
next
  case (Cons it items)
  obtain k v where it: "it = (k, v)" by (cases it) auto
  from Cons.prems have "distinct (map fst (dict_set k v d))"
    by (rule dict_set_distinct)
  from Cons.IH [OF this] dict_set_subset [of k v d] it show ?case
    by auto
qed

lemma dict_of_items_distinct: "distinct (map fst (dict_of_items items))"
  using foldl_dict_set_inv [of "[]" items] by (simp add: dict_of_items_def)

lemma dict_of_items_subset: "set (dict_of_items items) \<subseteq> set items"
  using foldl_dict_set_inv [of "[]" items] by (simp add: dict_of_items_def)

lemma component_items_key:
  assumes "(key, env, cmpt) \<in> set (component_items projects)"
  shows "fst key \<noteq> []
     \<and> fst (snd key) = lower (strip (or_empty (e_key env))) \<and> fst (snd key) \<noteq> []
     \<and> snd (snd key) = strip (or_empty (c_name cmpt)) \<and> snd (snd key) \<noteq> []"
  using assms by (auto simp: component_items_def Let_def split: if_splits)

lemma component_map_key:
  assumes "(key, env, cmpt) \<in> set (component_map projects)"
  shows "fst key \<noteq> []
     \<and> fst (snd key) = lower (strip (or_empty (e_key env))) \<and> fst (snd key) \<noteq> []
     \<and> snd (snd key) = strip (or_empty (c_name cmpt)) \<and> snd (snd key) \<noteq> []"
  using assms dict_of_items_subset [of "component_items projects"] component_items_key
  unfolding component_map_def by blast

lemma lower_Nil_iff: "lower s = [] \<longleftrightarrow> s = []"
  by (simp add: lower_def)

lemma normalize_env_key_lower:
  "lower (strip (or_empty k)) \<noteq> [] \<Longrightarrow> or_empty (normalize_env_key k) = lower (strip (or_empty k))"
  by (cases k) (auto simp: normalize_env_key_def or_empty_def lower_Nil_iff strip_def)

definition event_key :: "history_event \<Rightarrow> comp_key" where
  "event_key ev = (ev_projectKey ev, ev_envKey ev, ev_component ev)"

definition event_of_item ::
  "(comp_key \<Rightarrow> string) \<Rightarrow> (comp_key \<times> environment \<times> component) list \<Rightarrow>
   comp_key \<times> environment \<times> component \<Rightarrow> history_event" where
  "event_of_item clock prev_map item =
     (case item of (key, cur_env, cur_comp) \<Rightarrow>
        mk_history_event (fst key) cur_env cur_comp (prev_tag_of prev_map key) (comp_tag cur_comp) (clock key))"

definition item_changed ::
  "(comp_key \<times> environment \<times> component) list \<Rightarrow> comp_key \<times> environment \<times> component \<Rightarrow> bool" where
  "item_changed prev_map item =
     (case item of (key, cur_env, cur_comp) \<Rightarrow> tag_changed (prev_tag_of prev_map key) (comp_tag cur_comp))"

lemma event_key_of_item:
  assumes "item \<in> set (component_map projects)"
  shows "event_key (event_of_item clock prev_map item) = fst item"
proof -
  obtain key env cmpt where item: "item = (key, env, cmpt)" by (cases item) auto
  from component_map_key [OF assms [unfolded item]]
  have k: "fst (snd key) = lower (strip (or_empty (e_key env)))" "fst (snd key) \<noteq> []"
    "snd (snd key) = strip (or_empty (c_name cmpt))" by auto
  then have "or_empty (normalize_env_key (e_key env)) = fst (snd key)"
    using normalize_env_key_lower [of "e_key env"] by simp
  with k show ?thesis
    by (cases key) (simp add: item event_key_def event_of_item_def mk_history_event_def Let_def)
qed

lemma mset_flat_dict_append:
  "mset (concat (map snd (dict_append k v out))) = add_mset v (mset (concat (map snd out)))"
  by (induction out) auto

lemma events_loop_mset:
  "mset (concat (map snd (events_loop clock prev_map items out))) =
     mset (concat (map snd out))
     + mset (map (event_of_item clock prev_map) (filter (item_changed prev_map) items))"
proof (induction items arbitrary: out)
  case Nil
  then show ?case by simp
next
  case (Cons it items)
  obtain key env cmpt where it: "it = (key, env, cmpt)" by (cases it) auto
  show ?case
    using Cons [of out]
      Cons [of "dict_append (fst key) (mk_history_event (fst key) env cmpt (prev_tag_of prev_map key)
                  (comp_tag cmpt) (clock key)) out"]
    by (simp add: it Let_def item_changed_def event_of_item_def mset_flat_dict_append)
qed

lemma mset_insort_at_desc: "mset (insort_at_desc e es) = add_mset e (mset es)"
  by (induction es) auto

lemma mset_sort_at_desc: "mset (sort_at_desc es) = mset es"
  by (induction es) (simp_all add: sort_at_desc_def mset_insort_at_desc)

lemma mset_flat_sorted:
  "mset (concat (map snd (map (\<lambda>(pk, es). (pk, sort_at_desc es)) out))) = mset (concat (map snd out))"
  by (induction out) (auto simp: mset_sort_at_desc)

lemma compute_tag_change_events_mset:
  "mset (concat (map snd (compute_tag_change_events clock prev current))) =
     mset (map (event_of_item clock (component_map (case prev of None \<Rightarrow> [] | Some ps \<Rightarrow> ps)))
            (filter (item_changed (component_map (case prev of None \<Rightarrow> [] | Some ps \<Rightarrow> ps)))
               (component_map current)))"
  unfolding compute_tag_change_events_def Let_def mset_flat_sorted events_loop_mset
  by simp

lemma filter_key_distinct:
  "distinct (map fst xs) \<Longrightarrow> map_of xs k = Some v \<Longrightarrow> filter (\<lambda>it. fst it = k) xs = [(k, v)]"
proof (induction xs)
  case Nil
  then show ?case by simp
next
  case (Cons a xs)
  obtain k' v' where a: "a = (k', v')" by (cases a) auto
  show ?case
  proof (cases "k' = k")
    case True
    with Cons.prems a have "k \<notin> fst ` set xs" and "v' = v" by auto
    then have "filter (\<lambda>it. fst it = k) xs = []"
      by (auto simp: filter_empty_conv)
    with True a \<open>v' = v\<close> show ?thesis by simp
  next
    case False
    with Cons a show ?thesis by simp
  qed
qed

lemma mset_eq_single_list: "mset xs = {#x#} \<Longrightarrow> xs = [x]"
  by (cases xs) (auto simp: add_mset_eq_single)

lemma events_for_key:
  assumes cur: "map_of (component_map current) key = Some (cur_env, cur_comp)"
  shows "filter (\<lambda>ev. event_key ev = key)
           (concat (map snd (compute_tag_change_events clock prev current))) =
         (if tag_changed (prev_tag_of (component_map (case prev of None \<Rightarrow> [] | Some ps \<Rightarrow> ps)) key)
               (comp_tag cur_comp)
          then [mk_history_event (fst key) cur_env cur_comp
                  (prev_tag_of (component_map (case prev of None \<Rightarrow> [] | Some ps \<Rightarrow> ps)) key)
                  (comp_tag cur_comp) (clock key)]
          else [])"
proof -
  let ?pm = "component_map (case prev of None \<Rightarrow> [] | Some ps \<Rightarrow> ps)"
  let ?cm = "component_map current"
  let ?evs = "concat (map snd (compute_tag_change_events clock prev current))"
  let ?gen = "map (event_of_item clock ?pm) (filter (item_changed ?pm) ?cm)"
  let ?P = "\<lambda>ev. event_key ev = key"
  have e: "mset ?evs = mset ?gen"
    by (rule compute_tag_change_events_mset)
  have m: "mset (filter ?P ?evs) = mset (filter ?P ?gen)"
    by (simp only: mset_filter e)
  have k: "\<And>it. it \<in> set ?cm \<Longrightarrow> ?P (event_of_item clock ?pm it) = (fst it = key)"
    by (simp add: event_key_of_item)
  have "filter ?P ?gen = map (event_of_item clock ?pm)
          (filter (\<lambda>it. ?P (event_of_item clock ?pm it)) (filter (item_changed ?pm) ?cm))"
    by (simp add: filter_map comp_def)
  also have "filter (\<lambda>it. ?P (event_of_item clock ?pm it)) (filter (item_changed ?pm) ?cm) =
      filter (\<lambda>it. item_changed ?pm it \<and> fst it = key) ?cm"
  proof -
    have "filter (\<lambda>it. ?P (event_of_item clock ?pm it)) (filter (item_changed ?pm) ?cm) =
        filter (\<lambda>it. item_changed ?pm it \<and> ?P (event_of_item clock ?pm it)) ?cm"
      by (simp add: conj_commute)
    also have "\<dots> = filter (\<lambda>it. item_changed ?pm it \<and> fst it = key) ?cm"
      by (rule filter_cong) (simp_all add: k)
    finally show ?thesis .
  qed
  also have "\<dots> = filter (item_changed ?pm) (filter (\<lambda>it. fst it = key) ?cm)"
    by (simp add: conj_commute)
  also have "filter (\<lambda>it. fst it = key) ?cm = [(key, cur_env, cur_comp)]"
  proof -
    have "distinct (map fst ?cm)"
      unfolding component_map_def by (rule dict_of_items_distinct)
    from filter_key_distinct [OF this cur] show ?thesis .
  qed
  finally have g: "filter ?P ?gen =
      map (event_of_item clock ?pm) (filter (item_changed ?pm) [(key, cur_env, cur_comp)])" .
  show ?thesis
  proof (cases "tag_changed (prev_tag_of ?pm key) (comp_tag cur_comp)")
    case True
    with m g have "mset (filter ?P ?evs) =
        {#mk_history_event (fst key) cur_env cur_comp (prev_tag_of ?pm key) (comp_tag cur_comp) (clock key)#}"
      by (simp add: item_changed_def event_of_item_def)
    then have "filter ?P ?evs =
        [mk_history_event (fst key) cur_env cur_comp (prev_tag_of ?pm key) (comp_tag cur_comp) (clock key)]"
      by (rule mset_eq_single_list)
    with True show ?thesis by simp
  next
    case False
    with m g have "mset (filter ?P ?evs) = {#}"
      by (simp add: item_changed_def)
    with False show ?thesis by simp
  qed
qed

text \<open>
  C3. For a (project, environment, component) key present in both the previous and the
  current snapshot, exactly one TAG\_CHANGE event is emitted when the trimmed previous and
  current tags are both non-empty and differ, and none otherwise. The event's time is the
  component's deployedAt or, when that is blank, the clock reading; its fromBuild and
  toBuild are the build numbers extracted from the two tags; and its id is
  sha:project:env:component:toTag when a commit SHA comes out of the deployer commit URL,
  else project:env:component:toTag:at.
\<close>

theorem tag_change_event_derivation:
  assumes cur: "map_of (component_map current) (p, e, c) = Some (cur_env, cur_comp)"
    and prv: "map_of (component_map prev) (p, e, c) = Some (prev_env, prev_comp)"
  shows
    "(let ev = mk_history_event p cur_env cur_comp (comp_tag prev_comp) (comp_tag cur_comp) (clock (p, e, c));
          sha = extract_commit_sha (strip (or_empty (c_deployerCommitUrl cur_comp)))
      in filter (\<lambda>ev. (ev_projectKey ev, ev_envKey ev, ev_component ev) = (p, e, c))
           (concat (map snd (compute_tag_change_events clock (Some prev) current)))
         = (if comp_tag prev_comp \<noteq> [] \<and> comp_tag cur_comp \<noteq> []
               \<and> comp_tag prev_comp \<noteq> comp_tag cur_comp
            then [ev] else [])
       \<and> ev_kind ev = ''TAG_CHANGE''
       \<and> ev_at ev = (if strip (or_empty (c_deployedAt cur_comp)) \<noteq> []
                      then strip (or_empty (c_deployedAt cur_comp)) else clock (p, e, c))
       \<and> ev_fromBuild ev = extract_build_number (comp_tag prev_comp)
       \<and> ev_toBuild ev = extract_build_number (comp_tag cur_comp)
       \<and> ev_id ev = (if sha \<noteq> []
                      then sha @ '':'' @ p @ '':'' @ e @ '':'' @ c @ '':'' @ comp_tag cur_comp
                      else p @ '':'' @ e @ '':'' @ c @ '':'' @ comp_tag cur_comp @ '':'' @ ev_at ev))"
proof -
  let ?ev = "mk_history_event p cur_env cur_comp (comp_tag prev_comp) (comp_tag cur_comp) (clock (p, e, c))"
  from cur have "((p, e, c), cur_env, cur_comp) \<in> set (component_map current)"
    by (rule map_of_SomeD)
  from component_map_key [OF this]
  have k: "e = lower (strip (or_empty (e_key cur_env)))" "e \<noteq> []"
    "c = strip (or_empty (c_name cur_comp))" by auto
  then have ek: "or_empty (normalize_env_key (e_key cur_env)) = e"
    using normalize_env_key_lower [of "e_key cur_env"] by simp
  have pt: "prev_tag_of (component_map prev) (p, e, c) = comp_tag prev_comp"
    using prv by (simp add: prev_tag_of_def)
  have f: "filter (\<lambda>ev. (ev_projectKey ev, ev_envKey ev, ev_component ev) = (p, e, c))
           (concat (map snd (compute_tag_change_events clock (Some prev) current)))
         = (if comp_tag prev_comp \<noteq> [] \<and> comp_tag cur_comp \<noteq> []
               \<and> comp_tag prev_comp \<noteq> comp_tag cur_comp
            then [?ev] else [])"
    using events_for_key [OF cur, of clock "Some prev"] pt
    by (simp add: event_key_def tag_changed_def)
  have fields: "ev_kind ?ev = ''TAG_CHANGE''"
    "ev_at ?ev = (if strip (or_empty (c_deployedAt cur_comp)) \<noteq> []
                      then strip (or_empty (c_deployedAt cur_comp)) else clock (p, e, c))"
    "ev_fromBuild ?ev = extract_build_number (comp_tag prev_comp)"
    "ev_toBuild ?ev = extract_build_number (comp_tag cur_comp)"
    by (simp_all add: mk_history_event_def Let_def)
  have id: "ev_id ?ev =
      (if extract_commit_sha (strip (or_empty (c_deployerCommitUrl cur_comp))) \<noteq> []
       then extract_commit_sha (strip (or_empty (c_deployerCommitUrl cur_comp)))
            @ '':'' @ p @ '':'' @ e @ '':'' @ c @ '':'' @ comp_tag cur_comp
       else p @ '':'' @ e @ '':'' @ c @ '':'' @ comp_tag cur_comp @ '':'' @ ev_at ?ev)"
    using ek k(3) by (simp add: mk_history_event_def Let_def)
  from f fields id show ?thesis
    unfolding Let_def by (intro conjI)
qed

text \<open>
  The scenario of the specification: component X of project P1 in environment qa goes from
  svc-v0.0.10 to svc-v0.0.11 with the infra commit abc.
\<close>

theorem tag_change_event_derivation_witness:
  "concat (map snd (compute_tag_change_events (\<lambda>k. ''2026-01-19T12:30:00.000000+00:00'')
     (Some [\<lparr>p_key = Some ''P1'', p_environments =
        [\<lparr>e_key = Some ''qa'', e_name = Some ''QA'', e_deployer = None, e_components =
           [\<lparr>c_name = Some ''X'', c_tag = Some ''svc-v0.0.10'',
             c_deployedAt = Some ''2026-01-18T12:00:00Z'', c_deployer = Some ''dev1'',
             c_deployerCommitUrl = Some ''https://github.com/acme/infra/commit/aaa'',
             c_kustomizationUrl = None, c_buildUrl = None, c_warnings = None\<rparr>]\<rparr>]\<rparr>])
     [\<lparr>p_key = Some ''P1'', p_environments =
        [\<lparr>e_key = Some ''qa'', e_name = Some ''QA'', e_deployer = None, e_components =
           [\<lparr>c_name = Some ''X'', c_tag = Some ''svc-v0.0.11'',
             c_deployedAt = Some ''2026-01-19T12:00:00Z'', c_deployer = Some ''dev1'',
             c_deployerCommitUrl = Some ''https://github.com/acme/infra/commit/abc'',
             c_kustomizationUrl = None, c_buildUrl = None, c_warnings = None\<rparr>]\<rparr>]\<rparr>]))
   = [\<lparr>ev_id = ''abc:P1:qa:X:svc-v0.0.11'', ev_kind = ''TAG_CHANGE'', ev_bootstrap = False,
       ev_projectKey = ''P1'', ev_envKey = ''qa'', ev_envName = ''QA'', ev_component = ''X'',
       ev_fromTag = ''svc-v0.0.10'', ev_toTag = ''svc-v0.0.11'',
       ev_fromBuild = ''10'', ev_toBuild = ''11'',
       ev_at = ''2026-01-19T12:00:00Z'', ev_by = ''dev1'',
       ev_commitUrl = ''https://github.com/acme/infra/commit/abc'', ev_kustomizationUrl = [],
       ev_links = [\<lparr>l_type = ''commit'', l_label = ''Commit'',
                    l_url = ''https://github.com/acme/infra/commit/abc''\<rparr>],
       ev_warnings = None\<rparr>]"
proof -
  let ?ca = "\<lparr>c_name = Some ''X'', c_tag = Some ''svc-v0.0.10'',
             c_deployedAt = Some ''2026-01-18T12:00:00Z'', c_deployer = Some ''dev1'',
             c_deployerCommitUrl = Some ''https://github.com/acme/infra/commit/aaa'',
             c_kustomizationUrl = None, c_buildUrl = None, c_warnings = None\<rparr>"
  let ?cb = "\<lparr>c_name = Some ''X'', c_tag = Some ''svc-v0.0.11'',
             c_deployedAt = Some ''2026-01-19T12:00:00Z'', c_deployer = Some ''dev1'',
             c_deployerCommitUrl = Some ''https://github.com/acme/infra/commit/abc'',
             c_kustomizationUrl = None, c_buildUrl = None, c_warnings = None\<rparr>"
  let ?ea = "\<lparr>e_key = Some ''qa'', e_name = Some ''QA'', e_deployer = None, e_components = [?ca]\<rparr>"
  let ?eb = "\<lparr>e_key = Some ''qa'', e_name = Some ''QA'', e_deployer = None, e_components = [?cb]\<rparr>"
  let ?A = "[\<lparr>p_key = Some ''P1'', p_environments = [?ea]\<rparr>]"
  let ?B = "[\<lparr>p_key = Some ''P1'', p_environments = [?eb]\<rparr>]"
  let ?clock = "\<lambda>k::comp_key. ''2026-01-19T12:30:00.000000+00:00''"
  let ?evs = "concat (map snd (compute_tag_change_events ?clock (Some ?A) ?B))"
  have cur: "map_of (component_map ?B) (''P1'', ''qa'', ''X'') = Some (?eb, ?cb)"
    by code_simp
  have prv: "map_of (component_map ?A) (''P1'', ''qa'', ''X'') = Some (?ea, ?ca)"
    by code_simp
  have tags: "comp_tag ?ca = ''svc-v0.0.10''" "comp_tag ?cb = ''svc-v0.0.11''"
    by code_simp+
  have ev: "mk_history_event ''P1'' ?eb ?cb ''svc-v0.0.10'' ''svc-v0.0.11'' (?clock (''P1'', ''qa'', ''X''))
     = \<lparr>ev_id = ''abc:P1:qa:X:svc-v0.0.11'', ev_kind = ''TAG_CHANGE'', ev_bootstrap = False,
       ev_projectKey = ''P1'', ev_envKey = ''qa'', ev_envName = ''QA'', ev_component = ''X'',
       ev_fromTag = ''svc-v0.0.10'', ev_toTag = ''svc-v0.0.11'',
       ev_fromBuild = ''10'', ev_toBuild = ''11'',
       ev_at = ''2026-01-19T12:00:00Z'', ev_by = ''dev1'',
       ev_commitUrl = ''https://github.com/acme/infra/commit/abc'', ev_kustomizationUrl = [],
       ev_links = [\<lparr>l_type = ''commit'', l_label = ''Commit'',
                    l_url = ''https://github.com/acme/infra/commit/abc''\<rparr>],
       ev_warnings = None\<rparr>"
    by code_simp
  have all: "filter (\<lambda>ev. (ev_projectKey ev, ev_envKey ev, ev_component ev) = (''P1'', ''qa'', ''X'')) ?evs = ?evs"
    by code_simp
  from tag_change_event_derivation [OF cur prv, of ?clock]
  have "filter (\<lambda>ev. (ev_projectKey ev, ev_envKey ev, ev_component ev) = (''P1'', ''qa'', ''X'')) ?evs
      = [mk_history_event ''P1'' ?eb ?cb ''svc-v0.0.10'' ''svc-v0.0.11'' (?clock (''P1'', ''qa'', ''X''))]"
    unfolding Let_def tags by simp
  with all ev show ?thesis by simp
qed

section \<open>Persistence floor of ticket environment presence\<close>

definition stage_name :: "stage \<Rightarrow> string" where
  "stage_name s = (case s of S_DEV \<Rightarrow> ''DEV'' | S_QA \<Rightarrow> ''QA'' | S_UAT \<Rightarrow> ''UAT'' | S_PROD \<Rightarrow> ''PROD'')"

definition stage_order :: "stage list" where
  "stage_order = [S_DEV, S_QA, S_UAT, S_PROD]"

text \<open>
  The \<^verbatim>\<open>presence\<close> and \<^verbatim>\<open>presence_meta\<close> dictionaries of one ticket: a flag and a
  metadata object (or \<^verbatim>\<open>None\<close>) for each of the four stages.
\<close>

type_synonym presence = "stage \<Rightarrow> bool"
type_synonym presence_meta = "stage \<Rightarrow> pydict option"

text \<open>\<^verbatim>\<open>d.setdefault(k, v)\<close> on a JSON object.\<close>

definition dict_setdefault :: "string \<Rightarrow> json \<Rightarrow> pydict \<Rightarrow> pydict" where
  "dict_setdefault k v d = (case map_of d k of None \<Rightarrow> d @ [(k, v)] | Some _ \<Rightarrow> d)"

definition carried_meta :: "pydict \<Rightarrow> pydict" where
  "carried_meta pm =
     dict_setdefault ''warning'' (JStr ''Deployment carried forward from previous snapshot.'')
       (dict_setdefault ''confidence'' (JStr ''persisted'')
          (dict_setdefault ''source'' (JStr ''persisted_prev_snapshot'') pm))"

text \<open>
  The body of the loop over the stages in the persistence block of
  \<^verbatim>\<open>add_env_presence_to_ticket_index\<close>, on the flag and metadata of the stage.
\<close>

definition floor_value :: "pydict \<Rightarrow> json \<Rightarrow> stage \<Rightarrow> bool \<times> pydict option \<Rightarrow> bool \<times> pydict option" where
  "floor_value prev_presence prev_meta s v =
     (case v of (present, meta) \<Rightarrow>
        if dict_get prev_presence (stage_name s) = JBool True \<and> \<not> present then
          (True,
           if (case meta of None \<Rightarrow> True | Some m \<Rightarrow> m = []) then
             (case prev_meta of
                JObj pmd \<Rightarrow>
                  (case dict_get pmd (stage_name s) of
                     JObj pm \<Rightarrow> if pm \<noteq> [] then Some (carried_meta pm) else meta
                   | _ \<Rightarrow> meta)
              | _ \<Rightarrow> meta)
           else meta)
        else (present, meta))"

definition floor_stage ::
  "pydict \<Rightarrow> json \<Rightarrow> presence \<times> presence_meta \<Rightarrow> stage \<Rightarrow> presence \<times> presence_meta" where
  "floor_stage prev_presence prev_meta pm s =
     (case pm of (presence, presence_meta) \<Rightarrow>
        (case floor_value prev_presence prev_meta s (presence s, presence_meta s) of
           (b, m) \<Rightarrow> (presence(s := b), presence_meta(s := m))))"

text \<open>
  \<^verbatim>\<open>(t.get("key") or "").strip()\<close>: a key that is truthy but not a string has no
  \<^verbatim>\<open>strip\<close>; the exception is swallowed by the block and gives \<open>None\<close> here.
\<close>

definition ticket_key_of :: "pydict \<Rightarrow> string option" where
  "ticket_key_of t =
     (case dict_get t ''key'' of
        JStr s \<Rightarrow> Some (strip s)
      | v \<Rightarrow> if truthy v then None else Some [])"

definition or_empty_obj :: "json \<Rightarrow> json" where
  "or_empty_obj v = (if truthy v then v else JObj [])"

text \<open>
  The persistence block, from \<^verbatim>\<open>if prev_snapshot:\<close> to the end of its \<^verbatim>\<open>try\<close>, on
  the flags and metadata computed from the current snapshot.
\<close>

definition persistence_floor :: "json \<Rightarrow> pydict \<Rightarrow> presence \<times> presence_meta \<Rightarrow> presence \<times> presence_meta" where
  "persistence_floor prev_snapshot t pm =
     (if \<not> truthy prev_snapshot then pm
      else
        let prev_ticket_index =
              (case prev_snapshot of JObj ps \<Rightarrow> or_empty_obj (dict_get ps ''ticketIndex'') | _ \<Rightarrow> JObj [])
        in case ticket_key_of t of
             None \<Rightarrow> pm
           | Some ticket_key \<Rightarrow>
               (let prev_ticket =
                      (if ticket_key \<noteq> [] then
                         (case prev_ticket_index of JObj idx \<Rightarrow> dict_get idx ticket_key | _ \<Rightarrow> JNull)
                       else JNull)
                in case prev_ticket of
                     JObj pt \<Rightarrow>
                       (let prev_presence = or_empty_obj (dict_get pt ''envPresence'');
                            prev_meta = or_empty_obj (dict_get pt ''envPresenceMeta'')
                        in case prev_presence of
                             JObj pp \<Rightarrow> foldl (floor_stage pp prev_meta) pm stage_order
                           | _ \<Rightarrow> pm)
                   | _ \<Rightarrow> pm))"

text \<open>
  The flags and metadata that \<^verbatim>\<open>add_env_presence_to_ticket_index\<close> stores on a ticket,
  from the ones it computed from the current snapshot; nothing is stored when there are no
  projects. With no previous snapshot the function reports the first run by a call of
  \<^verbatim>\<open>logger.info\<close> that passes \<^verbatim>\<open>message\<close> twice, by position and by keyword, and the
  call raises \<^verbatim>\<open>TypeError\<close> before any ticket is touched.
\<close>

definition ticket_env_presence ::
  "project list \<Rightarrow> json option \<Rightarrow> pydict \<Rightarrow> presence \<times> presence_meta
     \<Rightarrow> py_error + (presence \<times> presence_meta) option" where
  "ticket_env_presence projects_out prev_snapshot t computed =
     (if projects_out = [] then Inr None
      else case prev_snapshot of
             None \<Rightarrow> Inl TypeError
           | Some p \<Rightarrow> Inr (Some (persistence_floor p t computed)))"

text \<open>
  \<^verbatim>\<open>merge_deployment_presence\<close>, on dictionaries from ticket key to flags and metadata.
  A ticket missing on one side counts there as absent from every stage.
\<close>

definition merge_ticket :: "presence \<times> presence_meta \<Rightarrow> presence \<times> presence_meta \<Rightarrow> presence \<times> presence_meta" where
  "merge_ticket current historical =
     (case current of (current_env, current_meta) \<Rightarrow>
      case historical of (historical_env, historical_meta) \<Rightarrow>
        (\<lambda>s. if current_env s then True else if historical_env s then True else False,
         \<lambda>s. if current_env s then current_meta s else if historical_env s then historical_meta s else None))"

definition merge_deployment_presence ::
  "(string \<Rightarrow> (presence \<times> presence_meta) option) \<Rightarrow> (string \<Rightarrow> (presence \<times> presence_meta) option) \<Rightarrow>
   string \<Rightarrow> (presence \<times> presence_meta) option" where
  "merge_deployment_presence current_presence historical_presence =
     (\<lambda>ticket_key.
        if current_presence ticket_key \<noteq> None \<or> historical_presence ticket_key \<noteq> None then
          Some (merge_ticket
                  (case current_presence ticket_key of None \<Rightarrow> (\<lambda>s. False, \<lambda>s. None) | Some c \<Rightarrow> c)
                  (case historical_presence ticket_key of None \<Rightarrow> (\<lambda>s. False, \<lambda>s. None) | Some h \<Rightarrow> h))
        else None)"

text \<open>
  The reading of the specification: a stage carried forward from the previous snapshot has
  metadata whose source is persisted\_prev\_snapshot.
\<close>

definition carried_source_is_persisted :: "presence_meta \<Rightarrow> stage \<Rightarrow> bool" where
  "carried_source_is_persisted meta s =
     (case meta s of None \<Rightarrow> False | Some m \<Rightarrow> dict_get m ''source'' = JStr ''persisted_prev_snapshot'')"

lemma floor_stage_unfold:
  "floor_stage pp pmeta (p, m) s' =
     (p(s' := fst (floor_value pp pmeta s' (p s', m s'))),
      m(s' := snd (floor_value pp pmeta s' (p s', m s'))))"
  by (simp add: floor_stage_def split: prod.splits)

lemma foldl_floor_stage:
  "foldl (floor_stage pp pmeta) (p, m) stage_order =
     (\<lambda>s. fst (floor_value pp pmeta s (p s, m s)), \<lambda>s. snd (floor_value pp pmeta s (p s, m s)))"
proof -
  have "fst (foldl (floor_stage pp pmeta) (p, m) stage_order) s = fst (floor_value pp pmeta s (p s, m s))"
    for s
    by (cases s) (simp_all add: stage_order_def floor_stage_unfold)
  moreover have "snd (foldl (floor_stage pp pmeta) (p, m) stage_order) s = snd (floor_value pp pmeta s (p s, m s))"
    for s
    by (cases s) (simp_all add: stage_order_def floor_stage_unfold)
  ultimately show ?thesis
    by (intro prod_eqI ext) simp_all
qed

lemma dict_get_obj_nonempty: "dict_get d k = JObj x \<Longrightarrow> d \<noteq> []"
  by (auto simp: dict_get_def)

lemma dict_get_true_nonempty: "dict_get d k = JBool True \<Longrightarrow> d \<noteq> []"
  by (auto simp: dict_get_def)

lemma persistence_floor_found:
  assumes "prev_snapshot = JObj ps"
    and "dict_get ps ''ticketIndex'' = JObj idx"
    and "dict_get t ''key'' = JStr k"
    and "strip k \<noteq> []"
    and "dict_get idx (strip k) = JObj pt"
    and "dict_get pt ''envPresence'' = JObj pp"
    and "pp \<noteq> []"
  shows "persistence_floor prev_snapshot t (p, m) =
     (\<lambda>s. fst (floor_value pp (or_empty_obj (dict_get pt ''envPresenceMeta'')) s (p s, m s)),
      \<lambda>s. snd (floor_value pp (or_empty_obj (dict_get pt ''envPresenceMeta'')) s (p s, m s)))"
proof -
  have ps: "ps \<noteq> []" using assms(2) by (rule dict_get_obj_nonempty)
  have idx: "idx \<noteq> []" using assms(5) by (rule dict_get_obj_nonempty)
  have t1: "truthy prev_snapshot"
    using assms(1) ps by simp
  have t2: "(case prev_snapshot of JObj ps \<Rightarrow> or_empty_obj (dict_get ps ''ticketIndex'') | _ \<Rightarrow> JObj [])
      = JObj idx"
    using assms(1,2) idx by (simp add: or_empty_obj_def)
  have t3: "ticket_key_of t = Some (strip k)"
    using assms(3) by (simp add: ticket_key_of_def)
  have t4: "or_empty_obj (dict_get pt ''envPresence'') = JObj pp"
    using assms(6,7) by (simp add: or_empty_obj_def)
  have "persistence_floor prev_snapshot t (p, m) =
      foldl (floor_stage pp (or_empty_obj (dict_get pt ''envPresenceMeta''))) (p, m) stage_order"
    unfolding persistence_floor_def t2 t3 Let_def
    using t1 assms(4,5) t4 by simp
  then show ?thesis
    by (simp only: foldl_floor_stage)
qed

lemma map_of_setdefault:
  "map_of (dict_setdefault k v d) k' =
     (if k' = k \<and> map_of d k = None then Some v else map_of d k')"
  by (cases "map_of d k"; cases "map_of d k'") (auto simp: dict_setdefault_def map_add_def)

lemma carried_meta_source:
  "dict_get (carried_meta pm) ''source'' =
     (case map_of pm ''source'' of None \<Rightarrow> JStr ''persisted_prev_snapshot'' | Some v \<Rightarrow> v)"
  unfolding carried_meta_def dict_get_def map_of_setdefault
  by (cases "map_of pm ''source''") simp_all

text \<open>
  C1 (as amended). Let the previous snapshot hold the ticket, under its trimmed key, with
  envPresence true for a stage. Then the stage is present after the persistence block,
  whatever the current snapshot computed, and it stays present through the merge with the
  deployment history. If the current snapshot set the stage itself, its metadata is kept
  unchanged. If it did not, and the previous snapshot has a non-empty metadata object for
  the stage, that object is carried forward with source, confidence and warning filled in
  only where the object lacks them: the carried source is persisted\_prev\_snapshot exactly
  when the previous object has no source of its own.
\<close>

theorem persistence_floor_keeps_stage:
  assumes "prev_snapshot = JObj ps"
    and "dict_get ps ''ticketIndex'' = JObj idx"
    and "dict_get t ''key'' = JStr k"
    and "strip k \<noteq> []"
    and "dict_get idx (strip k) = JObj pt"
    and "dict_get pt ''envPresence'' = JObj pp"
    and "dict_get pp (stage_name s) = JBool True"
  shows
    "fst (persistence_floor prev_snapshot t (presence, meta)) s
     \<and> (projects_out \<noteq> [] \<longrightarrow>
          ticket_env_presence projects_out (Some prev_snapshot) t (presence, meta) =
            Inr (Some (persistence_floor prev_snapshot t (presence, meta))))
     \<and> (presence s \<longrightarrow> snd (persistence_floor prev_snapshot t (presence, meta)) s = meta s)
     \<and> (\<not> presence s \<and> meta s = None \<and> dict_get pt ''envPresenceMeta'' = JObj pmd
          \<and> dict_get pmd (stage_name s) = JObj pm \<and> pm \<noteq> [] \<longrightarrow>
          snd (persistence_floor prev_snapshot t (presence, meta)) s = Some (carried_meta pm)
          \<and> dict_get (carried_meta pm) ''source'' =
              (case map_of pm ''source'' of None \<Rightarrow> JStr ''persisted_prev_snapshot'' | Some v \<Rightarrow> v))
     \<and> (current_presence ticket_key = Some (persistence_floor prev_snapshot t (presence, meta)) \<longrightarrow>
          (\<exists>merged_env merged_meta.
             merge_deployment_presence current_presence historical_presence ticket_key =
               Some (merged_env, merged_meta)
             \<and> merged_env s
             \<and> merged_meta s = snd (persistence_floor prev_snapshot t (presence, meta)) s))"
proof -
  have pp: "pp \<noteq> []" using assms(7) by (rule dict_get_true_nonempty)
  note found = persistence_floor_found [OF assms(1-6) pp, of presence meta]
  have a: "fst (persistence_floor prev_snapshot t (presence, meta)) s"
    unfolding found using assms(7) by (simp add: floor_value_def)
  have b: "projects_out \<noteq> [] \<longrightarrow>
          ticket_env_presence projects_out (Some prev_snapshot) t (presence, meta) =
            Inr (Some (persistence_floor prev_snapshot t (presence, meta)))"
    by (simp add: ticket_env_presence_def)
  have c: "presence s \<longrightarrow> snd (persistence_floor prev_snapshot t (presence, meta)) s = meta s"
    unfolding found by (simp add: floor_value_def)
  have d: "\<not> presence s \<and> meta s = None \<and> dict_get pt ''envPresenceMeta'' = JObj pmd
          \<and> dict_get pmd (stage_name s) = JObj pm \<and> pm \<noteq> [] \<longrightarrow>
          snd (persistence_floor prev_snapshot t (presence, meta)) s = Some (carried_meta pm)
          \<and> dict_get (carried_meta pm) ''source'' =
              (case map_of pm ''source'' of None \<Rightarrow> JStr ''persisted_prev_snapshot'' | Some v \<Rightarrow> v)"
  proof (intro impI, elim conjE)
    assume h: "\<not> presence s" "meta s = None" "dict_get pt ''envPresenceMeta'' = JObj pmd"
      "dict_get pmd (stage_name s) = JObj pm" "pm \<noteq> []"
    from h(4) have "pmd \<noteq> []" by (rule dict_get_obj_nonempty)
    with h assms(7) have "snd (persistence_floor prev_snapshot t (presence, meta)) s = Some (carried_meta pm)"
      unfolding found by (simp add: floor_value_def or_empty_obj_def)
    then show "snd (persistence_floor prev_snapshot t (presence, meta)) s = Some (carried_meta pm)
          \<and> dict_get (carried_meta pm) ''source'' =
              (case map_of pm ''source'' of None \<Rightarrow> JStr ''persisted_prev_snapshot'' | Some v \<Rightarrow> v)"
      by (simp add: carried_meta_source)
  qed
  have e: "current_presence ticket_key = Some (persistence_floor prev_snapshot t (presence, meta)) \<longrightarrow>
          (\<exists>merged_env merged_meta.
             merge_deployment_presence current_presence historical_presence ticket_key =
               Some (merged_env, merged_meta)
             \<and> merged_env s
             \<and> merged_meta s = snd (persistence_floor prev_snapshot t (presence, meta)) s)"
  proof
    assume cur: "current_presence ticket_key = Some (persistence_floor prev_snapshot t (presence, meta))"
    obtain fe fm where f: "persistence_floor prev_snapshot t (presence, meta) = (fe, fm)"
      by (cases "persistence_floor prev_snapshot t (presence, meta)") auto
    from a f have fe: "fe s" by simp
    obtain he hm where hst: "(case historical_presence ticket_key of
        None \<Rightarrow> (\<lambda>s. False, \<lambda>s. None) | Some h \<Rightarrow> h) = (he, hm)"
      by (cases "case historical_presence ticket_key of None \<Rightarrow> (\<lambda>s. False, \<lambda>s. None) | Some h \<Rightarrow> h") auto
    show "\<exists>merged_env merged_meta.
             merge_deployment_presence current_presence historical_presence ticket_key =
               Some (merged_env, merged_meta)
             \<and> merged_env s
             \<and> merged_meta s = snd (persistence_floor prev_snapshot t (presence, meta)) s"
      using cur f fe hst by (simp add: merge_deployment_presence_def merge_ticket_def)
  qed
  from a b c d e show ?thesis by (intro conjI)
qed

text \<open>
  A previous snapshot in which ticket ABC-1 is present in DEV, found by timing, and in QA,
  found by a time-aware build; the current snapshot sets neither stage.
\<close>

theorem persistence_floor_keeps_stage_witness:
  "fst (persistence_floor
      (JObj [(''projects'', JArr []),
             (''ticketIndex'', JObj [(''ABC-1'', JObj
                [(''key'', JStr ''ABC-1''),
                 (''envPresence'', JObj [(''DEV'', JBool True), (''QA'', JBool True),
                                         (''UAT'', JBool False), (''PROD'', JBool False)]),
                 (''envPresenceMeta'', JObj
                    [(''DEV'', JObj [(''when'', JStr ''2026-01-10T10:00:00Z''),
                                     (''confidence'', JStr ''heuristic'')]),
                     (''QA'', JObj [(''when'', JStr ''2026-01-12T10:00:00Z''),
                                    (''source'', JStr ''time_aware_build'')]),
                     (''UAT'', JNull), (''PROD'', JNull)])])])])
      [(''key'', JStr ''ABC-1'')] (\<lambda>s. False, \<lambda>s. None)) S_DEV
   \<and> snd (persistence_floor
      (JObj [(''projects'', JArr []),
             (''ticketIndex'', JObj [(''ABC-1'', JObj
                [(''key'', JStr ''ABC-1''),
                 (''envPresence'', JObj [(''DEV'', JBool True), (''QA'', JBool True),
                                         (''UAT'', JBool False), (''PROD'', JBool False)]),
                 (''envPresenceMeta'', JObj
                    [(''DEV'', JObj [(''when'', JStr ''2026-01-10T10:00:00Z''),
                                     (''confidence'', JStr ''heuristic'')]),
                     (''QA'', JObj [(''when'', JStr ''2026-01-12T10:00:00Z''),
                                    (''source'', JStr ''time_aware_build'')]),
                     (''UAT'', JNull), (''PROD'', JNull)])])])])
      [(''key'', JStr ''ABC-1'')] (\<lambda>s. False, \<lambda>s. None)) S_DEV
     = Some [(''when'', JStr ''2026-01-10T10:00:00Z''), (''confidence'', JStr ''heuristic''),
             (''source'', JStr ''persisted_prev_snapshot''),
             (''warning'', JStr ''Deployment carried forward from previous snapshot.'')]"
proof -
  let ?pp = "[(''DEV'', JBool True), (''QA'', JBool True), (''UAT'', JBool False), (''PROD'', JBool False)]"
  let ?pm = "[(''when'', JStr ''2026-01-10T10:00:00Z''), (''confidence'', JStr ''heuristic'')]"
  let ?pmd = "[(''DEV'', JObj ?pm),
               (''QA'', JObj [(''when'', JStr ''2026-01-12T10:00:00Z''), (''source'', JStr ''time_aware_build'')]),
               (''UAT'', JNull), (''PROD'', JNull)]"
  let ?pt = "[(''key'', JStr ''ABC-1''), (''envPresence'', JObj ?pp), (''envPresenceMeta'', JObj ?pmd)]"
  let ?idx = "[(''ABC-1'', JObj ?pt)]"
  let ?ps = "[(''projects'', JArr []), (''ticketIndex'', JObj ?idx)]"
  let ?t = "[(''key'', JStr ''ABC-1'')]"
  have h2: "dict_get ?ps ''ticketIndex'' = JObj ?idx" by (simp add: dict_get_def)
  have h3: "dict_get ?t ''key'' = JStr ''ABC-1''" by (simp add: dict_get_def)
  have sk: "strip ''ABC-1'' = ''ABC-1''" by code_simp
  have h4: "strip ''ABC-1'' \<noteq> []" unfolding sk by simp
  have h5: "dict_get ?idx (strip ''ABC-1'') = JObj ?pt" unfolding sk by (simp add: dict_get_def)
  have h6: "dict_get ?pt ''envPresence'' = JObj ?pp" by (simp add: dict_get_def)
  have h7: "dict_get ?pp (stage_name S_DEV) = JBool True" by (simp add: dict_get_def stage_name_def)
  have m1: "dict_get ?pt ''envPresenceMeta'' = JObj ?pmd" by (simp add: dict_get_def)
  have m2: "dict_get ?pmd (stage_name S_DEV) = JObj ?pm" by (simp add: dict_get_def stage_name_def)
  have cm: "carried_meta ?pm =
      [(''when'', JStr ''2026-01-10T10:00:00Z''), (''confidence'', JStr ''heuristic''),
       (''source'', JStr ''persisted_prev_snapshot''),
       (''warning'', JStr ''Deployment carried forward from previous snapshot.'')]"
    by (simp add: carried_meta_def dict_setdefault_def)
  from persistence_floor_keeps_stage [OF refl h2 h3 h4 h5 h6 h7,
      of "\<lambda>s. False" "\<lambda>s. None" "[]" ?pmd ?pm "\<lambda>k. None" "[]" "\<lambda>k. None"] m1 m2 cm
  show ?thesis by simp
qed

text \<open>
  In the same snapshot the QA metadata already names its source. The current snapshot does
  not set QA, the stage is carried forward, and the carried source stays time\_aware\_build:
  it is not persisted\_prev\_snapshot.
\<close>

definition carried_prev_snapshot :: json where
  "carried_prev_snapshot =
     JObj [(''projects'', JArr []),
           (''ticketIndex'', JObj [(''ABC-1'', JObj
              [(''key'', JStr ''ABC-1''),
               (''envPresence'', JObj [(''DEV'', JBool True), (''QA'', JBool True),
                                       (''UAT'', JBool False), (''PROD'', JBool False)]),
               (''envPresenceMeta'', JObj
                  [(''DEV'', JObj [(''when'', JStr ''2026-01-10T10:00:00Z''),
                                   (''confidence'', JStr ''heuristic'')]),
                   (''QA'', JObj [(''when'', JStr ''2026-01-12T10:00:00Z''),
                                  (''source'', JStr ''time_aware_build'')]),
                   (''UAT'', JNull), (''PROD'', JNull)])])])]"

definition nothing_computed :: "presence \<times> presence_meta" where
  "nothing_computed = (\<lambda>s. False, \<lambda>s. None)"

theorem persisted_source_counterexample:
  "fst (persistence_floor carried_prev_snapshot [(''key'', JStr ''ABC-1'')] nothing_computed) S_QA
   \<and> \<not> fst nothing_computed S_QA
   \<and> snd (persistence_floor carried_prev_snapshot [(''key'', JStr ''ABC-1'')] nothing_computed) S_QA
     = Some [(''when'', JStr ''2026-01-12T10:00:00Z''), (''source'', JStr ''time_aware_build''),
             (''confidence'', JStr ''persisted''),
             (''warning'', JStr ''Deployment carried forward from previous snapshot.'')]
   \<and> \<not> carried_source_is_persisted
         (snd (persistence_floor carried_prev_snapshot [(''key'', JStr ''ABC-1'')] nothing_computed)) S_QA"
  by code_simp

section \<open>HTTP requests with retry\<close>

text \<open>
  Durations are rational numbers of seconds, standing for the floats of the program. What
  one call of the transport library gives: a response, with its status code and the values
  of its \<^verbatim>\<open>X-RateLimit-Remaining\<close> and \<^verbatim>\<open>Retry-After\<close> headers, or a timeout or
  connection error, or some other exception.
\<close>

datatype http_outcome =
    Response nat "string option" "string option"
  | NetworkError
  | OtherError

datatype request_error = HTTPError nat | NetworkErr | OtherErr | ValueErr | RuntimeErr

datatype request_result = Return http_outcome | Raise request_error

text \<open>The effects of a request, in order: calls with their timeout, and sleeps.\<close>

datatype request_action = Call string rat | Sleep rat

text \<open>
  The arguments of \<^verbatim>\<open>_api_request_with_retry\<close>. The conversions \<^verbatim>\<open>int(...)\<close> and
  \<^verbatim>\<open>float(...)\<close> of header values are parameters; they give \<open>None\<close> where Python raises
  \<^verbatim>\<open>ValueError\<close>.
\<close>

record retry_config =
  rc_method :: string
  rc_max_retries :: nat
  rc_initial_backoff :: rat
  rc_max_backoff :: rat
  rc_timeout :: rat
  rc_int :: "string \<Rightarrow> int option"
  rc_float :: "string \<Rightarrow> rat option"

definition capped_backoff :: "retry_config \<Rightarrow> nat \<Rightarrow> rat" where
  "capped_backoff cfg attempt = min (rc_initial_backoff cfg * 2 ^ attempt) (rc_max_backoff cfg)"

text \<open>The pause after a response whose rate-limit header is low.\<close>

definition rate_limit_sleep :: "retry_config \<Rightarrow> string option \<Rightarrow> request_action list" where
  "rate_limit_sleep cfg rate_limit_remaining =
     (case rate_limit_remaining of
        None \<Rightarrow> []
      | Some h \<Rightarrow>
          if h = [] then []
          else (case rc_int cfg h of
                  None \<Rightarrow> []
                | Some remaining \<Rightarrow>
                    if remaining < 10 then (if remaining < 5 then [Sleep 1] else [Sleep (1 / 2)])
                    else []))"

text \<open>The wait computed for a 429 response.\<close>

definition wait_time_429 :: "retry_config \<Rightarrow> nat \<Rightarrow> string option \<Rightarrow> rat" where
  "wait_time_429 cfg attempt retry_after =
     (case retry_after of
        None \<Rightarrow> capped_backoff cfg attempt
      | Some h \<Rightarrow>
          if h = [] then capped_backoff cfg attempt
          else (case rc_float cfg h of
                  Some w \<Rightarrow> w
                | None \<Rightarrow> rc_initial_backoff cfg * 2 ^ attempt))"

datatype attempt_step = Retry "request_action list" | Done "request_action list" request_result

text \<open>
  The two \<^verbatim>\<open>except\<close> clauses: while attempts remain, sleep for the capped backoff and go
  on, else re-raise. \<^verbatim>\<open>time.sleep\<close> of a negative duration raises \<^verbatim>\<open>ValueError\<close>, here
  out of the handler.
\<close>

definition on_exception :: "retry_config \<Rightarrow> nat \<Rightarrow> bool \<Rightarrow> request_error \<Rightarrow> request_action list \<Rightarrow> attempt_step" where
  "on_exception cfg attempt is_last e trace =
     (if \<not> is_last then
        (if capped_backoff cfg attempt < 0 then Done trace (Raise ValueErr)
         else Retry (trace @ [Sleep (capped_backoff cfg attempt)]))
      else Done trace (Raise e))"

text \<open>
  One turn of the loop of \<^verbatim>\<open>_api_request_with_retry\<close>; \<open>is_last\<close> says that
  \<^verbatim>\<open>attempt = max_retries - 1\<close>. An exception raised inside the \<^verbatim>\<open>try\<close> block, also by
  \<^verbatim>\<open>raise_for_status\<close> or by a sleep of negative length, goes to \<open>on_exception\<close>.
\<close>

definition attempt_step :: "retry_config \<Rightarrow> http_outcome \<Rightarrow> nat \<Rightarrow> bool \<Rightarrow> request_action list \<Rightarrow> attempt_step" where
  "attempt_step cfg outcome attempt is_last trace =
     (if upper (rc_method cfg) \<noteq> ''GET'' \<and> upper (rc_method cfg) \<noteq> ''POST''
      then on_exception cfg attempt is_last ValueErr trace
      else
        (let trace1 = trace @ [Call (upper (rc_method cfg)) (rc_timeout cfg)] in
         case outcome of
           NetworkError \<Rightarrow> on_exception cfg attempt is_last NetworkErr trace1
         | OtherError \<Rightarrow> on_exception cfg attempt is_last OtherErr trace1
         | Response status rate_limit_remaining retry_after \<Rightarrow>
             (let trace2 = trace1 @ rate_limit_sleep cfg rate_limit_remaining in
              if status = 429 then
                (let wait_time = wait_time_429 cfg attempt retry_after in
                 if \<not> is_last then
                   (if wait_time < 0 then on_exception cfg attempt is_last ValueErr trace2
                    else Retry (trace2 @ [Sleep wait_time]))
                 else on_exception cfg attempt is_last (HTTPError status) trace2)
              else if 500 \<le> status \<and> status < 600 then
                (if \<not> is_last then
                   (if capped_backoff cfg attempt < 0 then on_exception cfg attempt is_last ValueErr trace2
                    else Retry (trace2 @ [Sleep (capped_backoff cfg attempt)]))
                 else on_exception cfg attempt is_last (HTTPError status) trace2)
              else Done trace2 (Return outcome))))"

text \<open>
  The loop, with the index of the attempt and the number of attempts that are left. The
  outcomes of the calls are given by the attempt at which they are made.
\<close>

fun retry_loop ::
  "retry_config \<Rightarrow> (nat \<Rightarrow> http_outcome) \<Rightarrow> nat \<Rightarrow> nat \<Rightarrow> request_action list \<Rightarrow>
   request_action list \<times> request_result" where
  "retry_loop cfg outcomes attempt 0 trace = (trace, Raise RuntimeErr)"
| "retry_loop cfg outcomes attempt (Suc n) trace =
     (case attempt_step cfg (outcomes attempt) attempt (n = 0) trace of
        Retry trace' \<Rightarrow> retry_loop cfg outcomes (Suc attempt) n trace'
      | Done trace' r \<Rightarrow> (trace', r))"

definition api_request_with_retry ::
  "retry_config \<Rightarrow> (nat \<Rightarrow> http_outcome) \<Rightarrow> request_action list \<times> request_result" where
  "api_request_with_retry cfg outcomes = retry_loop cfg outcomes 0 (rc_max_retries cfg) []"

text \<open>
  The parts of the retry policy that the program follows: while attempts remain, a server
  error and a network error are followed by a sleep of the capped backoff and another
  attempt; so is a 429 response without a Retry-After value, while a numeric, non-negative
  Retry-After value is slept as it is; any other response is returned at once; a low
  rate-limit header adds its pause after the call; and every call gets the caller's timeout.
\<close>

lemma attempt_step_policy:
  assumes m: "upper (rc_method cfg) = ''GET'' \<or> upper (rc_method cfg) = ''POST''"
    and b: "0 \<le> capped_backoff cfg attempt"
  shows "attempt_step cfg NetworkError attempt False trace =
           Retry (trace @ [Call (upper (rc_method cfg)) (rc_timeout cfg), Sleep (capped_backoff cfg attempt)])"
    and "500 \<le> status \<Longrightarrow> status < 600 \<Longrightarrow>
         attempt_step cfg (Response status rl ra) attempt False trace =
           Retry (trace @ [Call (upper (rc_method cfg)) (rc_timeout cfg)] @ rate_limit_sleep cfg rl
                  @ [Sleep (capped_backoff cfg attempt)])"
    and "attempt_step cfg (Response 429 rl None) attempt False trace =
           Retry (trace @ [Call (upper (rc_method cfg)) (rc_timeout cfg)] @ rate_limit_sleep cfg rl
                  @ [Sleep (capped_backoff cfg attempt)])"
    and "h \<noteq> [] \<Longrightarrow> rc_float cfg h = Some w \<Longrightarrow> 0 \<le> w \<Longrightarrow>
         attempt_step cfg (Response 429 rl (Some h)) attempt False trace =
           Retry (trace @ [Call (upper (rc_method cfg)) (rc_timeout cfg)] @ rate_limit_sleep cfg rl
                  @ [Sleep w])"
    and "status \<noteq> 429 \<Longrightarrow> \<not> (500 \<le> status \<and> status < 600) \<Longrightarrow>
         attempt_step cfg (Response status rl ra) attempt is_last trace =
           Done (trace @ [Call (upper (rc_method cfg)) (rc_timeout cfg)] @ rate_limit_sleep cfg rl)
                (Return (Response status rl ra))"
  using m b
  by (auto simp: attempt_step_def on_exception_def wait_time_429_def Let_def not_less)

text \<open>
  C4 at a failing input: eight attempts with the default backoff of one second capped at
  sixty, every response a 429 whose Retry-After is an HTTP date and so not a number. The
  seventh wait is 64 seconds, above the cap; the capped backoff of that attempt is 60.
\<close>

theorem retry_after_date_backoff_uncapped:
  "fst (api_request_with_retry
     \<lparr>rc_method = ''GET'', rc_max_retries = 8, rc_initial_backoff = 1, rc_max_backoff = 60,
      rc_timeout = 30, rc_int = (\<lambda>s. None), rc_float = (\<lambda>s. None)\<rparr>
     (\<lambda>attempt. Response 429 None (Some ''Wed, 21 Oct 2026 07:28:00 GMT'')))
   = [Call ''GET'' 30, Sleep 1, Call ''GET'' 30, Sleep 2, Call ''GET'' 30, Sleep 4,
      Call ''GET'' 30, Sleep 8, Call ''GET'' 30, Sleep 16, Call ''GET'' 30, Sleep 32,
      Call ''GET'' 30, Sleep 64, Call ''GET'' 30]
   \<and> snd (api_request_with_retry
     \<lparr>rc_method = ''GET'', rc_max_retries = 8, rc_initial_backoff = 1, rc_max_backoff = 60,
      rc_timeout = 30, rc_int = (\<lambda>s. None), rc_float = (\<lambda>s. None)\<rparr>
     (\<lambda>attempt. Response 429 None (Some ''Wed, 21 Oct 2026 07:28:00 GMT'')))
   = Raise (HTTPError 429)
   \<and> capped_backoff
     \<lparr>rc_method = ''GET'', rc_max_retries = 8, rc_initial_backoff = 1, rc_max_backoff = 60,
      rc_timeout = 30, rc_int = (\<lambda>s. None), rc_float = (\<lambda>s. None)\<rparr> 6 = 60"
  by code_simp

section \<open>Retention of the release history\<close>
































section \<open>CI build details and timestamps\<close>

text \<open>
  \<^verbatim>\<open>teamcity_get_build_details\<close>. The answer of the CI server to the request is a
  parameter: the status code with the decoded body (\<open>None\<close> when the body is not JSON), or
  the exception that the request raised. The result is \<^verbatim>\<open>None\<close>, or the body as it came.
\<close>

definition teamcity_get_build_details ::
  "string \<Rightarrow> string \<Rightarrow> nat \<Rightarrow> request_error + (nat \<times> json option) \<Rightarrow> request_error + json option" where
  "teamcity_get_build_details rest_base token build_id response =
     (if rest_base = [] \<or> token = [] \<or> build_id = 0 then Inr None
      else case response of
             Inl e \<Rightarrow> Inl e
           | Inr (status_code, body) \<Rightarrow>
               if status_code = 401 \<or> status_code = 403 then Inr None
               else if 400 \<le> status_code \<and> status_code < 600 then Inl (HTTPError status_code)
               else (case body of
                       None \<Rightarrow> Inl ValueErr
                     | Some j \<Rightarrow> Inr (Some (if truthy j then j else JObj []))))"

text \<open>
  An aware \<^verbatim>\<open>datetime\<close> by its fields, with the offset of its time zone from UTC in
  microseconds.
\<close>

record aware_datetime =
  dt_year :: nat
  dt_month :: nat
  dt_day :: nat
  dt_hour :: nat
  dt_minute :: nat
  dt_second :: nat
  dt_microsecond :: nat
  dt_utcoffset :: int

text \<open>The proleptic Gregorian calendar of the \<^verbatim>\<open>datetime\<close> library.\<close>

definition is_leap :: "nat \<Rightarrow> bool" where
  "is_leap year = (year mod 4 = 0 \<and> (year mod 100 \<noteq> 0 \<or> year mod 400 = 0))"

definition days_before_year :: "nat \<Rightarrow> nat" where
  "days_before_year year = (let y = year - 1 in y * 365 + y div 4 - y div 100 + y div 400)"

definition days_in_month_table :: "nat list" where
  "days_in_month_table = [0, 31, 28, 31, 30, 31, 30, 31, 31, 30, 31, 30, 31]"

definition days_before_month_table :: "nat list" where
  "days_before_month_table = [0, 0, 31, 59, 90, 120, 151, 181, 212, 243, 273, 304, 334]"

definition table_at :: "nat list \<Rightarrow> nat \<Rightarrow> nat" where
  "table_at t i = (if i < length t then t ! i else 0)"

definition days_in_month :: "nat \<Rightarrow> nat \<Rightarrow> nat" where
  "days_in_month year month =
     (if month = 2 \<and> is_leap year then 29 else table_at days_in_month_table month)"

definition days_before_month :: "nat \<Rightarrow> nat \<Rightarrow> nat" where
  "days_before_month year month =
     table_at days_before_month_table month + (if 2 < month \<and> is_leap year then 1 else 0)"

definition ymd2ord :: "nat \<Rightarrow> nat \<Rightarrow> nat \<Rightarrow> nat" where
  "ymd2ord year month day = days_before_year year + days_before_month year month + day"

definition ord2ymd :: "nat \<Rightarrow> nat \<times> nat \<times> nat" where
  "ord2ymd ordinal =
     (let n0 = ordinal - 1;
          n400 = n0 div 146097; na = n0 mod 146097;
          n100 = na div 36524; nb = na mod 36524;
          n4 = nb div 1461; nc = nb mod 1461;
          n1 = nc div 365; n = nc mod 365;
          year = n400 * 400 + 1 + n100 * 100 + n4 * 4 + n1
      in if n1 = 4 \<or> n100 = 4 then (year - 1, 12, 31)
         else
           (let leapyear = (n1 = 3 \<and> (n4 \<noteq> 24 \<or> n100 = 3));
                month = (n + 50) div 32;
                preceding = table_at days_before_month_table month + (if 2 < month \<and> leapyear then 1 else 0)
            in if n < preceding
               then (let month' = month - 1;
                         preceding' = preceding - (table_at days_in_month_table month'
                                                    + (if month' = 2 \<and> leapyear then 1 else 0))
                     in (year, month', n - preceding' + 1))
               else (year, month, n - preceding + 1)))"

definition max_ordinal :: nat where
  "max_ordinal = 3652059"

text \<open>
  \<^verbatim>\<open>dt.astimezone(timezone.utc)\<close> of a time that \<^verbatim>\<open>strptime\<close> read. With the offset
  zero its zone is \<^verbatim>\<open>timezone.utc\<close> itself and the time is returned as it is. Otherwise
  the offset is subtracted: the same instant with offset zero, or \<open>None\<close> when it falls
  outside the years 1 to 9999 and the library raises \<^verbatim>\<open>OverflowError\<close>.
\<close>

definition astimezone_utc :: "aware_datetime \<Rightarrow> aware_datetime option" where
  "astimezone_utc dt =
     (if dt_utcoffset dt = 0 then Some dt
      else
        (let total = (int (ymd2ord (dt_year dt) (dt_month dt) (dt_day dt)) * 86400
                      + int (dt_hour dt) * 3600 + int (dt_minute dt) * 60 + int (dt_second dt))
                     * 1000000
                     + int (dt_microsecond dt) - dt_utcoffset dt;
             days = total div 86400000000;
             rest = nat (total mod 86400000000);
             secs = rest div 1000000
         in if days < 1 \<or> int max_ordinal < days then None
            else (case ord2ymd (nat days) of
                    (y, m, d) \<Rightarrow>
                      Some \<lparr>dt_year = y, dt_month = m, dt_day = d,
                            dt_hour = secs div 3600, dt_minute = (secs mod 3600) div 60,
                            dt_second = secs mod 60, dt_microsecond = rest mod 1000000,
                            dt_utcoffset = 0\<rparr>)))"

text \<open>
  Decimal numerals, padded with zeros as by \<^verbatim>\<open>%02d\<close>, \<^verbatim>\<open>%04d\<close> and
  \<^verbatim>\<open>%06d\<close>.
\<close>

definition digit_char :: "nat \<Rightarrow> char" where
  "digit_char d = ''0123456789'' ! (d mod 10)"

fun decimal :: "nat \<Rightarrow> string" where
  "decimal n = (if n < 10 then [digit_char n] else decimal (n div 10) @ [digit_char (n mod 10)])"

declare decimal.simps [simp del]

definition zero_pad :: "nat \<Rightarrow> nat \<Rightarrow> string" where
  "zero_pad width n = replicate (width - length (decimal n)) CHR ''0'' @ decimal n"

text \<open>
  \<^verbatim>\<open>isoformat()\<close> of an aware time: the date and the time of day, the microseconds
  when they are not zero, and the offset, with its seconds and microseconds when they are
  not zero.
\<close>

definition isoformat_offset :: "int \<Rightarrow> string" where
  "isoformat_offset off =
     (let a = nat \<bar>off\<bar>;
          hh = a div 3600000000;
          mm = (a mod 3600000000) div 60000000;
          ss = (a mod 60000000) div 1000000;
          us = a mod 1000000
      in (if off < 0 then ''-'' else ''+'')
         @ zero_pad 2 hh @ '':'' @ zero_pad 2 mm
         @ (if ss \<noteq> 0 \<or> us \<noteq> 0
            then '':'' @ zero_pad 2 ss @ (if us \<noteq> 0 then ''.'' @ zero_pad 6 us else [])
            else []))"

definition isoformat_body :: "aware_datetime \<Rightarrow> string" where
  "isoformat_body dt =
     zero_pad 4 (dt_year dt) @ ''-'' @ zero_pad 2 (dt_month dt) @ ''-'' @ zero_pad 2 (dt_day dt)
     @ ''T'' @ zero_pad 2 (dt_hour dt) @ '':'' @ zero_pad 2 (dt_minute dt) @ '':''
     @ zero_pad 2 (dt_second dt)"

definition isoformat_fraction :: "aware_datetime \<Rightarrow> string" where
  "isoformat_fraction dt =
     (if dt_microsecond dt \<noteq> 0 then ''.'' @ zero_pad 6 (dt_microsecond dt) else [])"

definition isoformat :: "aware_datetime \<Rightarrow> string" where
  "isoformat dt = isoformat_body dt @ isoformat_fraction dt @ isoformat_offset (dt_utcoffset dt)"

text \<open>\<^verbatim>\<open>x or y\<close> on JSON values.\<close>

definition py_or :: "json \<Rightarrow> json \<Rightarrow> json" where
  "py_or x y = (if truthy x then x else y)"

text \<open>
  \<^verbatim>\<open>parse_iso_teamcity\<close>. The argument is what the caller read from the build details, a
  JSON value. The library's \<^verbatim>\<open>datetime.strptime\<close> with the format
  \<^verbatim>\<open>%Y%m%dT%H%M%S%z\<close> is a parameter on strings; it gives \<open>None\<close> where the library
  raises. For a value that is not a string the library raises \<^verbatim>\<open>TypeError\<close>, which the
  function catches like every other exception.
\<close>

definition parse_iso_teamcity :: "(string \<Rightarrow> aware_datetime option) \<Rightarrow> json \<Rightarrow> string" where
  "parse_iso_teamcity strptime s =
     (if \<not> truthy s then []
      else case s of
             JStr x \<Rightarrow>
               (case strptime x of
                  None \<Rightarrow> []
                | Some dt \<Rightarrow>
                    (case astimezone_utc dt of
                       None \<Rightarrow> []
                     | Some u \<Rightarrow> py_replace ''+00:00'' ''Z'' (isoformat u)))
           | _ \<Rightarrow> [])"

text \<open>
  \<^verbatim>\<open>_parse_tc_ts\<close>, the function local to \<^verbatim>\<open>correlate_prs_with_builds_time_aware\<close>: the
  same steps, but an exception gives the argument back as it came.
\<close>

definition parse_tc_ts :: "(string \<Rightarrow> aware_datetime option) \<Rightarrow> json \<Rightarrow> json" where
  "parse_tc_ts strptime s =
     (if \<not> truthy s then JStr []
      else case s of
             JStr x \<Rightarrow>
               (case strptime x of
                  None \<Rightarrow> s
                | Some dt \<Rightarrow>
                    (case astimezone_utc dt of
                       None \<Rightarrow> s
                     | Some u \<Rightarrow> JStr (py_replace ''+00:00'' ''Z'' (isoformat u))))
           | _ \<Rightarrow> s)"

text \<open>
  \<^verbatim>\<open>teamcity_get_build\<close>: the build id is looked up by build type and number, then the
  details are fetched. The outcome of the look-up, \<^verbatim>\<open>teamcity_get_build_id_by_number\<close>,
  is a parameter: the exception it raised, no build, or the id.
\<close>

definition teamcity_get_build ::
  "string \<Rightarrow> string \<Rightarrow> request_error + nat option \<Rightarrow> request_error + (nat \<times> json option)
     \<Rightarrow> request_error + json option" where
  "teamcity_get_build rest_base token looked_up response =
     (case looked_up of
        Inl e \<Rightarrow> Inl e
      | Inr None \<Rightarrow> Inr None
      | Inr (Some build_id) \<Rightarrow>
          if build_id = 0 then Inr None
          else teamcity_get_build_details rest_base token build_id response)"

text \<open>
  The two places that read the dates of a fetched build. \<open>fetched\<close> is the outcome of
  \<^verbatim>\<open>teamcity_get_build\<close>. Build details that are not an object have no \<^verbatim>\<open>get\<close>:
  \<^verbatim>\<open>AttributeError\<close>.

  In \<^verbatim>\<open>main\<close>, the enrichment of a component: an exception of the fetch leaves
  \<^verbatim>\<open>tc_build\<close> at \<^verbatim>\<open>None\<close>; for build details that are truthy the finish date, else the
  finish date on the agent, goes through \<^verbatim>\<open>parse_iso_teamcity\<close> into
  \<^verbatim>\<open>c["buildFinishedAt"]\<close>. The result is the value stored there, \<open>None\<close> when nothing
  is stored. The start date is not read.
\<close>

datatype enrich_error = AttributeError

definition build_finished_at ::
  "(string \<Rightarrow> aware_datetime option) \<Rightarrow> request_error + json option \<Rightarrow> enrich_error + string option" where
  "build_finished_at strptime fetched =
     (let tc_build = (case fetched of Inl e \<Rightarrow> None | Inr b \<Rightarrow> b) in
      case tc_build of
        None \<Rightarrow> Inr None
      | Some j \<Rightarrow>
          if \<not> truthy j then Inr None
          else (case j of
                  JObj d \<Rightarrow>
                    (let fin_raw = py_or (py_or (dict_get d ''finishDate'')
                                                (dict_get d ''finishOnAgentDate'')) (JStr [])
                     in Inr (Some (parse_iso_teamcity strptime fin_raw)))
                | _ \<Rightarrow> Inl AttributeError))"

text \<open>
  In \<^verbatim>\<open>correlate_prs_with_builds_time_aware\<close>, inside the \<^verbatim>\<open>try\<close> whose handler goes on
  to the next component: the values of \<^verbatim>\<open>started_at\<close> and \<^verbatim>\<open>finished_at\<close>, or \<open>None\<close>
  when the loop has gone on before they are computed.
\<close>

definition build_started_finished ::
  "(string \<Rightarrow> aware_datetime option) \<Rightarrow> request_error + json option \<Rightarrow> (json \<times> json) option" where
  "build_started_finished strptime fetched =
     (case fetched of
        Inl e \<Rightarrow> None
      | Inr None \<Rightarrow> None
      | Inr (Some j) \<Rightarrow>
          if \<not> truthy j then None
          else (case j of
                  JObj tc_build \<Rightarrow>
                    (let start_raw = py_or (dict_get tc_build ''startDate'') (JStr []);
                         finish_raw = py_or (py_or (dict_get tc_build ''finishDate'')
                                                   (dict_get tc_build ''finishOnAgentDate'')) (JStr []);
                         started_at = (if truthy start_raw then parse_tc_ts strptime start_raw
                                       else JStr []);
                         finished_at = (if truthy finish_raw then parse_tc_ts strptime finish_raw
                                        else JStr [])
                     in Some (started_at, finished_at))
                | _ \<Rightarrow> None))"

text \<open>
  What \<^verbatim>\<open>strptime\<close> does with a string of the vendor's shape, eight digits, the letter T,
  six digits, a sign and four digits: the fields are read at their fixed places; month,
  day, hour, minute, second and the minutes of the offset must be in range, the offset
  below a day and the date a date of the calendar. Any other string gives \<open>None\<close>
  here. That is the library's answer for a string that does not match the format; the
  library also reads fields of one digit, an offset with a colon or with seconds, and the
  letter Z for the offset, and strings of those shapes are outside this reading.
\<close>

definition digit_val :: "char \<Rightarrow> nat" where
  "digit_val c = of_char c - 48"

definition two_digits :: "string \<Rightarrow> nat" where
  "two_digits s = (case s of [a, b] \<Rightarrow> digit_val a * 10 + digit_val b | _ \<Rightarrow> 0)"

definition four_digits :: "string \<Rightarrow> nat" where
  "four_digits s = two_digits (take 2 s) * 100 + two_digits (drop 2 s)"

definition strptime_vendor :: "string \<Rightarrow> aware_datetime option" where
  "strptime_vendor s =
     (if length s = 20
         \<and> list_all py_isdigit (take 8 s)
         \<and> (s ! 8 = CHR ''T'' \<or> s ! 8 = CHR ''t'')
         \<and> list_all py_isdigit (take 6 (drop 9 s))
         \<and> (s ! 15 = CHR ''+'' \<or> s ! 15 = CHR ''-'')
         \<and> list_all py_isdigit (drop 16 s)
      then
        (let year = four_digits (take 4 s);
             month = two_digits (take 2 (drop 4 s));
             day = two_digits (take 2 (drop 6 s));
             hour = two_digits (take 2 (drop 9 s));
             minute = two_digits (take 2 (drop 11 s));
             second = two_digits (take 2 (drop 13 s));
             off_h = two_digits (take 2 (drop 16 s));
             off_m = two_digits (take 2 (drop 18 s));
             magnitude = (int off_h * 3600 + int off_m * 60) * 1000000;
             offset = (if s ! 15 = CHR ''-'' then - magnitude else magnitude)
         in if 1 \<le> month \<and> month \<le> 12 \<and> 1 \<le> day \<and> day \<le> 31 \<and> hour \<le> 23 \<and> minute \<le> 59
               \<and> second \<le> 61 \<and> off_m \<le> 59
               \<and> 1 \<le> year \<and> day \<le> days_in_month year month \<and> second \<le> 59
               \<and> magnitude < 86400000000
            then Some \<lparr>dt_year = year, dt_month = month, dt_day = day, dt_hour = hour,
                       dt_minute = minute, dt_second = second, dt_microsecond = 0,
                       dt_utcoffset = offset\<rparr>
            else None)
      else None)"

text \<open>
  The words of the specification: the start and finish dates in the build details that the
  adapter returns are the normalised forms of the vendor's values.
\<close>

definition str_field :: "json \<Rightarrow> string \<Rightarrow> string" where
  "str_field j k = (case j of JObj d \<Rightarrow> (case dict_get d k of JStr s \<Rightarrow> s | _ \<Rightarrow> []) | _ \<Rightarrow> [])"

definition details_normalised :: "(string \<Rightarrow> aware_datetime option) \<Rightarrow> json \<Rightarrow> json \<Rightarrow> bool" where
  "details_normalised strptime vendor_body details =
     (str_field details ''startDate''
        = parse_iso_teamcity strptime (JStr (str_field vendor_body ''startDate''))
      \<and> str_field details ''finishDate''
        = parse_iso_teamcity strptime (JStr (str_field vendor_body ''finishDate'')))"

lemma py_replace_utc_suffix:
  "CHR ''+'' \<notin> set body \<Longrightarrow> py_replace ''+00:00'' ''Z'' (body @ ''+00:00'') = body @ ''Z''"
proof (induction body)
  case Nil
  show ?case by (simp add: startswith_def)
next
  case (Cons c cs)
  then have "c \<noteq> CHR ''+''" and "CHR ''+'' \<notin> set cs" by auto
  with Cons.IH show ?case by (simp add: startswith_def)
qed

lemma digit_char_in: "digit_char d \<in> set ''0123456789''"
proof -
  have "d mod 10 < length ''0123456789''" by simp
  then show ?thesis
    unfolding digit_char_def by (rule nth_mem)
qed

lemma decimal_digits: "set (decimal n) \<subseteq> set ''0123456789''"
proof (induction n rule: decimal.induct)
  case (1 n)
  show ?case
  proof (cases "n < 10")
    case True
    then have "decimal n = [digit_char n]" by (simp add: decimal.simps)
    with digit_char_in [of n] show ?thesis by simp
  next
    case False
    then have "decimal n = decimal (n div 10) @ [digit_char (n mod 10)]"
      by (subst decimal.simps) simp
    with "1.IH" [OF False] digit_char_in [of "n mod 10"] show ?thesis by simp
  qed
qed

lemma zero_pad_digits: "set (zero_pad w n) \<subseteq> set ''0123456789''"
  using decimal_digits [of n] by (auto simp: zero_pad_def)

lemma plus_not_in_zero_pad: "CHR ''+'' \<notin> set (zero_pad w n)"
  using zero_pad_digits [of w n] by auto

lemma plus_not_in_body: "CHR ''+'' \<notin> set (isoformat_body dt @ isoformat_fraction dt)"
  by (simp add: isoformat_body_def isoformat_fraction_def plus_not_in_zero_pad)

lemma isoformat_offset_zero: "isoformat_offset 0 = ''+00:00''"
  by (simp add: isoformat_offset_def zero_pad_def decimal.simps digit_char_def)

lemma astimezone_utc_offset: "astimezone_utc dt = Some u \<Longrightarrow> dt_utcoffset u = 0"
  by (auto simp: astimezone_utc_def Let_def split: if_splits prod.splits)

lemma isoformat_utc:
  assumes "astimezone_utc dt = Some u"
  shows "py_replace ''+00:00'' ''Z'' (isoformat u) = isoformat_body u @ isoformat_fraction u @ ''Z''"
proof -
  have "isoformat u = (isoformat_body u @ isoformat_fraction u) @ ''+00:00''"
    by (simp add: isoformat_def astimezone_utc_offset [OF assms] isoformat_offset_zero)
  then show ?thesis
    using py_replace_utc_suffix [OF plus_not_in_body [of u]] by simp
qed

lemma astimezone_utc_whole_seconds:
  assumes "astimezone_utc dt = Some u"
    and "dt_microsecond dt = 0" and "dt_utcoffset dt mod 1000000 = 0"
  shows "dt_microsecond u = 0"
proof (cases "dt_utcoffset dt = 0")
  case True
  with assms(1) have "u = dt" by (simp add: astimezone_utc_def)
  with assms(2) show ?thesis by simp
next
  case False
  define secs where "secs = int (ymd2ord (dt_year dt) (dt_month dt) (dt_day dt)) * 86400
      + int (dt_hour dt) * 3600 + int (dt_minute dt) * 60 + int (dt_second dt)"
  define total where "total = secs * 1000000 + int (dt_microsecond dt) - dt_utcoffset dt"
  from assms(3) obtain k where k: "dt_utcoffset dt = 1000000 * k"
    by (auto simp: mod_eq_0_iff_dvd)
  have "total = 1000000 * (secs - k)"
    using assms(2) k by (simp add: total_def algebra_simps)
  then have "(total mod 86400000000) mod 1000000 = 0"
    by (simp add: mod_mod_cancel)
  moreover have "0 \<le> total mod 86400000000"
    by simp
  ultimately have z: "nat (total mod 86400000000) mod 1000000 = 0"
    using nat_mod_distrib [of "total mod 86400000000" 1000000] by simp
  from assms(1) False have "dt_microsecond u = nat (total mod 86400000000) mod 1000000"
    by (auto simp: astimezone_utc_def Let_def total_def secs_def split: if_splits prod.splits)
  with z show ?thesis by simp
qed

lemma isoformat_fraction_whole_seconds:
  assumes "astimezone_utc dt = Some u"
    and "dt_microsecond dt = 0" and "dt_utcoffset dt mod 1000000 = 0"
  shows "isoformat_fraction u = []"
  using astimezone_utc_whole_seconds [OF assms] by (simp add: isoformat_fraction_def)

lemma strptime_vendor_example:
  "strptime_vendor ''20251204T141343+0000'' =
     Some \<lparr>dt_year = 2025, dt_month = 12, dt_day = 4, dt_hour = 14, dt_minute = 13,
           dt_second = 43, dt_microsecond = 0, dt_utcoffset = 0\<rparr>"
  by code_simp

lemma astimezone_utc_example:
  "astimezone_utc \<lparr>dt_year = 2025, dt_month = 12, dt_day = 4, dt_hour = 14, dt_minute = 13,
           dt_second = 43, dt_microsecond = 0, dt_utcoffset = 0\<rparr> =
     Some \<lparr>dt_year = 2025, dt_month = 12, dt_day = 4, dt_hour = 14, dt_minute = 13,
           dt_second = 43, dt_microsecond = 0, dt_utcoffset = 0\<rparr>"
  by (simp add: astimezone_utc_def ymd2ord_def days_before_year_def days_before_month_def
        table_at_def days_before_month_table_def days_in_month_table_def is_leap_def ord2ymd_def
        max_ordinal_def Let_def)

lemma isoformat_fraction_example:
  "isoformat_fraction \<lparr>dt_year = 2025, dt_month = 12, dt_day = 4, dt_hour = 14, dt_minute = 13,
           dt_second = 43, dt_microsecond = 0, dt_utcoffset = 0\<rparr> = []"
  by (simp add: isoformat_fraction_def)

lemma isoformat_body_example:
  "isoformat_body \<lparr>dt_year = 2025, dt_month = 12, dt_day = 4, dt_hour = 14, dt_minute = 13,
           dt_second = 43, dt_microsecond = 0, dt_utcoffset = 0\<rparr> = ''2025-12-04T14:13:43''"
  by (simp add: isoformat_body_def zero_pad_def decimal.simps digit_char_def)


lemma parse_iso_teamcity_utc:
  assumes "s \<noteq> []" and "strptime s = Some dt" and "astimezone_utc dt = Some u"
  shows "parse_iso_teamcity strptime (JStr s) = isoformat_body u @ isoformat_fraction u @ ''Z''"
  using assms isoformat_utc [OF assms(3)] by (simp add: parse_iso_teamcity_def)

lemma parse_iso_teamcity_not_string:
  "\<not> truthy v \<or> (\<forall>s. v \<noteq> JStr s) \<Longrightarrow> parse_iso_teamcity strptime v = []"
  by (cases v) (auto simp: parse_iso_teamcity_def)

lemma parse_tc_ts_parse_iso_teamcity:
  "parse_tc_ts strptime v =
     (if \<not> truthy v then JStr []
      else if parse_iso_teamcity strptime v = [] then v
      else JStr (parse_iso_teamcity strptime v))"
proof (cases v)
  case (JStr x)
  show ?thesis
  proof (cases "x = []")
    case True
    with JStr show ?thesis by (simp add: parse_tc_ts_def)
  next
    case nonempty: False
    show ?thesis
    proof (cases "strptime x")
      case None
      with JStr nonempty show ?thesis
        by (simp add: parse_tc_ts_def parse_iso_teamcity_def)
    next
      case (Some dt)
      show ?thesis
      proof (cases "astimezone_utc dt")
        case None
        with JStr nonempty Some show ?thesis
          by (simp add: parse_tc_ts_def parse_iso_teamcity_def)
      next
        case (Some u)
        have p: "parse_iso_teamcity strptime (JStr x) = isoformat_body u @ isoformat_fraction u @ ''Z''"
          using nonempty \<open>strptime x = Some dt\<close> Some
          by (rule parse_iso_teamcity_utc [where strptime = strptime and s = x and dt = dt and u = u])
        have "parse_tc_ts strptime (JStr x) = JStr (isoformat_body u @ isoformat_fraction u @ ''Z'')"
          using nonempty \<open>strptime x = Some dt\<close> Some isoformat_utc [OF Some]
          by (simp add: parse_tc_ts_def)
        with JStr nonempty p show ?thesis by simp
      qed
    qed
  qed
qed (simp_all add: parse_tc_ts_def parse_iso_teamcity_def)

lemma teamcity_get_build_details_body:
  "rest_base \<noteq> [] \<and> token \<noteq> [] \<and> build_id \<noteq> 0 \<and> status_code < 400 \<and> truthy body \<Longrightarrow>
     teamcity_get_build_details rest_base token build_id (Inr (status_code, Some body)) = Inr (Some body)"
  by (simp add: teamcity_get_build_details_def)

lemma teamcity_get_build_body:
  "rest_base \<noteq> [] \<and> token \<noteq> [] \<and> build_id \<noteq> 0 \<and> status_code < 400 \<and> truthy body \<Longrightarrow>
     teamcity_get_build rest_base token (Inr (Some build_id)) (Inr (status_code, Some body))
       = Inr (Some body)"
  by (simp add: teamcity_get_build_def teamcity_get_build_details_body)

lemma build_started_finished_object:
  "d \<noteq> [] \<Longrightarrow>
     build_started_finished strptime (Inr (Some (JObj d))) =
       Some (parse_tc_ts strptime (py_or (dict_get d ''startDate'') (JStr [])),
             parse_tc_ts strptime (py_or (py_or (dict_get d ''finishDate'')
                                                (dict_get d ''finishOnAgentDate'')) (JStr [])))"
  by (simp add: build_started_finished_def Let_def parse_tc_ts_def)

text \<open>
  C9 (as amended). The build-details operation returns the body of the CI server's answer
  as it came, the raw start and finish dates included; the normalisation is done by its
  two callers, on that result.

  The enrichment of a component in \<^verbatim>\<open>main\<close> stores as the time the build finished
  \<^verbatim>\<open>parse_iso_teamcity\<close> of the finish date, or of the finish date on the agent when the
  first is empty; it does not read the start date. \<^verbatim>\<open>parse_iso_teamcity\<close> gives the
  empty string for an empty value, for a value that is not a string, for a string that
  \<^verbatim>\<open>strptime\<close> rejects and for a time that leaves the years 1 to 9999 when moved to UTC;
  any other parsed time gives the date and time in UTC, written YYYY-MM-DDThh:mm:ss and
  closed by Z, with the microseconds before the Z only when the offset that
  \<^verbatim>\<open>strptime\<close> read has a fraction of a second. The vendor's 20251204T141343+0000
  becomes 2025-12-04T14:13:43Z.

  The correlation of pull requests with builds normalises the start date and the finish
  date (or the finish date on the agent) with its local function, which gives the empty
  string for an empty value, the result of \<^verbatim>\<open>parse_iso_teamcity\<close> where that is not
  empty, and otherwise the value as it came.
\<close>

theorem parse_iso_teamcity_normalises:
  "(rest_base \<noteq> [] \<and> token \<noteq> [] \<and> build_id \<noteq> 0 \<and> status_code < 400 \<and> truthy body \<longrightarrow>
      teamcity_get_build_details rest_base token build_id (Inr (status_code, Some body)) = Inr (Some body)
      \<and> teamcity_get_build rest_base token (Inr (Some build_id)) (Inr (status_code, Some body))
          = Inr (Some body))
   \<and> (\<not> truthy v \<or> (\<forall>x. v \<noteq> JStr x) \<longrightarrow> parse_iso_teamcity strptime v = [])
   \<and> (strptime s = None \<longrightarrow> parse_iso_teamcity strptime (JStr s) = [])
   \<and> (strptime s = Some dt \<and> astimezone_utc dt = None \<longrightarrow> parse_iso_teamcity strptime (JStr s) = [])
   \<and> (s \<noteq> [] \<and> strptime s = Some dt \<and> astimezone_utc dt = Some u \<longrightarrow>
        parse_iso_teamcity strptime (JStr s) = isoformat_body u @ isoformat_fraction u @ ''Z''
        \<and> dt_utcoffset u = 0
        \<and> (dt_microsecond dt = 0 \<and> dt_utcoffset dt mod 1000000 = 0 \<longrightarrow>
             parse_iso_teamcity strptime (JStr s) = isoformat_body u @ ''Z''))
   \<and> parse_iso_teamcity strptime_vendor (JStr ''20251204T141343+0000'') = ''2025-12-04T14:13:43Z''
   \<and> parse_tc_ts strptime v =
        (if \<not> truthy v then JStr []
         else if parse_iso_teamcity strptime v = [] then v
         else JStr (parse_iso_teamcity strptime v))
   \<and> (rest_base \<noteq> [] \<and> token \<noteq> [] \<and> build_id \<noteq> 0 \<and> status_code < 400 \<and> d \<noteq> [] \<longrightarrow>
        build_finished_at strptime
            (teamcity_get_build rest_base token (Inr (Some build_id)) (Inr (status_code, Some (JObj d))))
          = Inr (Some (parse_iso_teamcity strptime
                         (py_or (py_or (dict_get d ''finishDate'') (dict_get d ''finishOnAgentDate''))
                                (JStr []))))
        \<and> build_started_finished strptime
            (teamcity_get_build rest_base token (Inr (Some build_id)) (Inr (status_code, Some (JObj d))))
          = Some (parse_tc_ts strptime (py_or (dict_get d ''startDate'') (JStr [])),
                  parse_tc_ts strptime
                    (py_or (py_or (dict_get d ''finishDate'') (dict_get d ''finishOnAgentDate''))
                           (JStr []))))"
proof (intro conjI)
  show "rest_base \<noteq> [] \<and> token \<noteq> [] \<and> build_id \<noteq> 0 \<and> status_code < 400 \<and> truthy body \<longrightarrow>
      teamcity_get_build_details rest_base token build_id (Inr (status_code, Some body)) = Inr (Some body)
      \<and> teamcity_get_build rest_base token (Inr (Some build_id)) (Inr (status_code, Some body))
          = Inr (Some body)"
    using teamcity_get_build_details_body [of rest_base token build_id status_code body]
      teamcity_get_build_body [of rest_base token build_id status_code body]
    by blast
next
  show "\<not> truthy v \<or> (\<forall>x. v \<noteq> JStr x) \<longrightarrow> parse_iso_teamcity strptime v = []"
    using parse_iso_teamcity_not_string [of v strptime] by blast
next
  show "strptime s = None \<longrightarrow> parse_iso_teamcity strptime (JStr s) = []"
    by (simp add: parse_iso_teamcity_def)
next
  show "strptime s = Some dt \<and> astimezone_utc dt = None \<longrightarrow> parse_iso_teamcity strptime (JStr s) = []"
    by (simp add: parse_iso_teamcity_def)
next
  show "s \<noteq> [] \<and> strptime s = Some dt \<and> astimezone_utc dt = Some u \<longrightarrow>
        parse_iso_teamcity strptime (JStr s) = isoformat_body u @ isoformat_fraction u @ ''Z''
        \<and> dt_utcoffset u = 0
        \<and> (dt_microsecond dt = 0 \<and> dt_utcoffset dt mod 1000000 = 0 \<longrightarrow>
             parse_iso_teamcity strptime (JStr s) = isoformat_body u @ ''Z'')"
  proof (intro impI, elim conjE)
    assume h: "s \<noteq> []" "strptime s = Some dt" "astimezone_utc dt = Some u"
    from h have r: "parse_iso_teamcity strptime (JStr s) = isoformat_body u @ isoformat_fraction u @ ''Z''"
      by (rule parse_iso_teamcity_utc [where strptime = strptime and s = s and dt = dt and u = u])
    have w: "dt_microsecond dt = 0 \<and> dt_utcoffset dt mod 1000000 = 0 \<longrightarrow>
        parse_iso_teamcity strptime (JStr s) = isoformat_body u @ ''Z''"
    proof (intro impI, elim conjE)
      assume "dt_microsecond dt = 0" and "dt_utcoffset dt mod 1000000 = 0"
      with h(3) have "isoformat_fraction u = []"
        by (rule isoformat_fraction_whole_seconds)
      with r show "parse_iso_teamcity strptime (JStr s) = isoformat_body u @ ''Z''"
        by simp
    qed
    from r w astimezone_utc_offset [OF h(3)]
    show "parse_iso_teamcity strptime (JStr s) = isoformat_body u @ isoformat_fraction u @ ''Z''
        \<and> dt_utcoffset u = 0
        \<and> (dt_microsecond dt = 0 \<and> dt_utcoffset dt mod 1000000 = 0 \<longrightarrow>
             parse_iso_teamcity strptime (JStr s) = isoformat_body u @ ''Z'')"
      by blast
  qed
next
  show "parse_iso_teamcity strptime_vendor (JStr ''20251204T141343+0000'') = ''2025-12-04T14:13:43Z''"
    by (simp add: parse_iso_teamcity_def strptime_vendor_example astimezone_utc_example
          isoformat_utc [OF astimezone_utc_example] isoformat_body_example
          isoformat_fraction_example)
next
  show "parse_tc_ts strptime v =
        (if \<not> truthy v then JStr []
         else if parse_iso_teamcity strptime v = [] then v
         else JStr (parse_iso_teamcity strptime v))"
    by (rule parse_tc_ts_parse_iso_teamcity)
next
  show "rest_base \<noteq> [] \<and> token \<noteq> [] \<and> build_id \<noteq> 0 \<and> status_code < 400 \<and> d \<noteq> [] \<longrightarrow>
        build_finished_at strptime
            (teamcity_get_build rest_base token (Inr (Some build_id)) (Inr (status_code, Some (JObj d))))
          = Inr (Some (parse_iso_teamcity strptime
                         (py_or (py_or (dict_get d ''finishDate'') (dict_get d ''finishOnAgentDate''))
                                (JStr []))))
        \<and> build_started_finished strptime
            (teamcity_get_build rest_base token (Inr (Some build_id)) (Inr (status_code, Some (JObj d))))
          = Some (parse_tc_ts strptime (py_or (dict_get d ''startDate'') (JStr [])),
                  parse_tc_ts strptime
                    (py_or (py_or (dict_get d ''finishDate'') (dict_get d ''finishOnAgentDate''))
                           (JStr [])))"
  proof (intro impI, elim conjE)
    assume h: "rest_base \<noteq> []" "token \<noteq> []" "build_id \<noteq> 0" "status_code < 400" "d \<noteq> []"
    then have f: "teamcity_get_build rest_base token (Inr (Some build_id))
        (Inr (status_code, Some (JObj d))) = Inr (Some (JObj d))"
      using teamcity_get_build_body [of rest_base token build_id status_code "JObj d"] by simp
    have m: "build_finished_at strptime (Inr (Some (JObj d)))
        = Inr (Some (parse_iso_teamcity strptime
                       (py_or (py_or (dict_get d ''finishDate'') (dict_get d ''finishOnAgentDate''))
                              (JStr []))))"
      using h(5) by (simp add: build_finished_at_def Let_def)
    from f m build_started_finished_object [OF h(5), of strptime]
    show "build_finished_at strptime
            (teamcity_get_build rest_base token (Inr (Some build_id)) (Inr (status_code, Some (JObj d))))
          = Inr (Some (parse_iso_teamcity strptime
                         (py_or (py_or (dict_get d ''finishDate'') (dict_get d ''finishOnAgentDate''))
                                (JStr []))))
        \<and> build_started_finished strptime
            (teamcity_get_build rest_base token (Inr (Some build_id)) (Inr (status_code, Some (JObj d))))
          = Some (parse_tc_ts strptime (py_or (dict_get d ''startDate'') (JStr [])),
                  parse_tc_ts strptime
                    (py_or (py_or (dict_get d ''finishDate'') (dict_get d ''finishOnAgentDate''))
                           (JStr [])))"
      by simp
  qed
qed

text \<open>
  A build that started at 14:13:43 one hour east of Greenwich started at 13:13:43 UTC. When
  the server answers with that start date and a finish date that is not in its usual form,
  \<^verbatim>\<open>main\<close> stores the empty string as the time the build finished, and the correlation
  has the start date normalised and the finish date as it came.
\<close>

theorem parse_iso_teamcity_normalises_witness:
  "parse_iso_teamcity strptime_vendor (JStr ''20251204T141343+0100'') = ''2025-12-04T13:13:43Z''
   \<and> teamcity_get_build_details ''https://ci.example.com/app/rest'' ''token'' 4711
        (Inr (200, Some (JObj [(''number'', JStr ''112''),
                               (''startDate'', JStr ''20251204T141343+0100''),
                               (''finishDate'', JStr ''2025-12-04T14:25:01Z'')])))
      = Inr (Some (JObj [(''number'', JStr ''112''),
                         (''startDate'', JStr ''20251204T141343+0100''),
                         (''finishDate'', JStr ''2025-12-04T14:25:01Z'')]))
   \<and> build_finished_at strptime_vendor
        (teamcity_get_build ''https://ci.example.com/app/rest'' ''token'' (Inr (Some 4711))
           (Inr (200, Some (JObj [(''number'', JStr ''112''),
                                  (''startDate'', JStr ''20251204T141343+0100''),
                                  (''finishDate'', JStr ''2025-12-04T14:25:01Z'')]))))
      = Inr (Some [])
   \<and> build_started_finished strptime_vendor
        (teamcity_get_build ''https://ci.example.com/app/rest'' ''token'' (Inr (Some 4711))
           (Inr (200, Some (JObj [(''number'', JStr ''112''),
                                  (''startDate'', JStr ''20251204T141343+0100''),
                                  (''finishDate'', JStr ''2025-12-04T14:25:01Z'')]))))
      = Some (JStr ''2025-12-04T13:13:43Z'', JStr ''2025-12-04T14:25:01Z'')"
proof -
  let ?dt = "\<lparr>dt_year = 2025, dt_month = 12, dt_day = 4, dt_hour = 14, dt_minute = 13,
           dt_second = 43, dt_microsecond = 0, dt_utcoffset = 3600000000\<rparr>"
  let ?u = "\<lparr>dt_year = 2025, dt_month = 12, dt_day = 4, dt_hour = 13, dt_minute = 13,
           dt_second = 43, dt_microsecond = 0, dt_utcoffset = 0\<rparr>"
  let ?d = "[(''number'', JStr ''112''), (''startDate'', JStr ''20251204T141343+0100''),
             (''finishDate'', JStr ''2025-12-04T14:25:01Z'')]"
  let ?base = "''https://ci.example.com/app/rest''"
  have p: "strptime_vendor ''20251204T141343+0100'' = Some ?dt"
    by code_simp
  have q: "strptime_vendor ''2025-12-04T14:25:01Z'' = None"
    by code_simp
  have a: "astimezone_utc ?dt = Some ?u"
    by (simp add: astimezone_utc_def ymd2ord_def days_before_year_def days_before_month_def
          table_at_def days_before_month_table_def days_in_month_table_def is_leap_def ord2ymd_def
          max_ordinal_def Let_def)
  have b: "isoformat_body ?u = ''2025-12-04T13:13:43''"
    by (simp add: isoformat_body_def zero_pad_def decimal.simps digit_char_def)
  have fr: "isoformat_fraction ?u = []"
    by (simp add: isoformat_fraction_def)
  have n: "''20251204T141343+0100'' \<noteq> []"
    by simp
  have start: "parse_iso_teamcity strptime_vendor (JStr ''20251204T141343+0100'') = ''2025-12-04T13:13:43Z''"
    using parse_iso_teamcity_normalises [where strptime = strptime_vendor
        and s = "''20251204T141343+0100''" and dt = ?dt and u = ?u] p a b fr n
    by simp
  have finish: "parse_iso_teamcity strptime_vendor (JStr ''2025-12-04T14:25:01Z'') = []"
    using parse_iso_teamcity_normalises [where strptime = strptime_vendor
        and s = "''2025-12-04T14:25:01Z''"] q
    by blast
  have start_tc: "parse_tc_ts strptime_vendor (JStr ''20251204T141343+0100'') = JStr ''2025-12-04T13:13:43Z''"
    using parse_iso_teamcity_normalises [where strptime = strptime_vendor
        and v = "JStr ''20251204T141343+0100''"] start
    by simp
  have finish_tc: "parse_tc_ts strptime_vendor (JStr ''2025-12-04T14:25:01Z'') = JStr ''2025-12-04T14:25:01Z''"
    using parse_iso_teamcity_normalises [where strptime = strptime_vendor
        and v = "JStr ''2025-12-04T14:25:01Z''"] finish
    by simp
  have g1: "py_or (dict_get ?d ''startDate'') (JStr []) = JStr ''20251204T141343+0100''"
    by code_simp
  have g2: "py_or (py_or (dict_get ?d ''finishDate'') (dict_get ?d ''finishOnAgentDate'')) (JStr [])
      = JStr ''2025-12-04T14:25:01Z''"
    by code_simp
  have details: "teamcity_get_build_details ?base ''token'' 4711 (Inr (200, Some (JObj ?d)))
      = Inr (Some (JObj ?d))"
    using parse_iso_teamcity_normalises [where rest_base = ?base
        and token = "''token''" and build_id = 4711 and status_code = 200 and body = "JObj ?d"]
    by simp
  have callers: "build_finished_at strptime_vendor
        (teamcity_get_build ?base ''token'' (Inr (Some 4711)) (Inr (200, Some (JObj ?d))))
      = Inr (Some [])
    \<and> build_started_finished strptime_vendor
        (teamcity_get_build ?base ''token'' (Inr (Some 4711)) (Inr (200, Some (JObj ?d))))
      = Some (JStr ''2025-12-04T13:13:43Z'', JStr ''2025-12-04T14:25:01Z'')"
  proof -
    have "?base \<noteq> [] \<and> ''token'' \<noteq> [] \<and> (4711::nat) \<noteq> 0 \<and> (200::nat) < 400 \<and> ?d \<noteq> []"
      by simp
    with parse_iso_teamcity_normalises [where strptime = strptime_vendor and rest_base = ?base
        and token = "''token''" and build_id = 4711 and status_code = 200 and d = ?d]
    show ?thesis
      unfolding g1 g2 start_tc finish_tc finish by blast
  qed
  from start details callers show ?thesis by blast
qed

text \<open>
  The adapter hands on the vendor's form: for the answer below the start date it returns
  is the raw 20251204T141343+0000, not 2025-12-04T14:13:43Z.
\<close>

definition vendor_build_body :: json where
  "vendor_build_body =
     JObj [(''id'', JNum 4711), (''number'', JStr ''112''), (''status'', JStr ''SUCCESS''),
           (''startDate'', JStr ''20251204T141343+0000''),
           (''finishDate'', JStr ''20251204T142501+0000'')]"

theorem build_details_raw_counterexample:
  "teamcity_get_build_details ''https://ci.example.com/app/rest'' ''token'' 4711
      (Inr (200, Some vendor_build_body)) = Inr (Some vendor_build_body)
   \<and> str_field vendor_build_body ''startDate'' = ''20251204T141343+0000''
   \<and> parse_iso_teamcity strptime_vendor (JStr ''20251204T141343+0000'') = ''2025-12-04T14:13:43Z''
   \<and> \<not> details_normalised strptime_vendor vendor_build_body vendor_build_body"
proof -
  have r: "teamcity_get_build_details ''https://ci.example.com/app/rest'' ''token'' 4711
      (Inr (200, Some vendor_build_body)) = Inr (Some vendor_build_body)"
    by (simp add: teamcity_get_build_details_def vendor_build_body_def)
  have f: "str_field vendor_build_body ''startDate'' = ''20251204T141343+0000''"
    by (simp add: str_field_def vendor_build_body_def dict_get_def)
  have p: "parse_iso_teamcity strptime_vendor (JStr ''20251204T141343+0000'') = ''2025-12-04T14:13:43Z''"
    by (simp add: parse_iso_teamcity_def strptime_vendor_example astimezone_utc_example
          isoformat_utc [OF astimezone_utc_example] isoformat_body_example
          isoformat_fraction_example)
  have "\<not> details_normalised strptime_vendor vendor_build_body vendor_build_body"
    unfolding details_normalised_def f p by simp
  with r f p show ?thesis by blast
qed

end
